theory Spec2Isabelle
  imports Complex_Main "HOL-Library.List_Lexorder" "HOL-Library.Char_ord" "HOL-Library.Multiset"
begin

section \<open>float64\<close>

text \<open>
  Go's \<^verbatim>\<open>float64\<close> is IEEE 754 binary64. A finite value is carried as the rational it
  denotes; the sign of zero is not tracked. Every arithmetic operation rounds the exact
  result to the nearest representable value, ties to even, and overflows to an infinity.
\<close>

datatype float64 = Finite rat | PosInf | NegInf | NaN

function bitlen :: "int \<Rightarrow> int" where
  "bitlen n = (if n \<le> 0 then 0 else 1 + bitlen (n div 2))"
  by pat_completeness auto
termination
  by (relation "measure nat") auto

declare bitlen.simps [simp del]

definition ilog2 :: "rat \<Rightarrow> int" where
  \<comment> \<open>for \<open>0 < x\<close>: the exponent \<open>e\<close> with \<open>2^e \<le> x < 2^(e+1)\<close>\<close>
  "ilog2 x =
     (let d = bitlen (fst (quotient_of x)) - bitlen (snd (quotient_of x))
      in if 2 powi d \<le> x then d else d - 1)"

definition round_half_even :: "rat \<Rightarrow> int" where
  "round_half_even y =
     (let f = \<lfloor>y\<rfloor>; d = y - of_int f
      in if d < 1 / 2 then f
         else if 1 / 2 < d then f + 1
         else if even f then f else f + 1)"

definition ulp :: "rat \<Rightarrow> rat" where
  \<comment> \<open>spacing of the binary64 grid around \<open>x\<close>: 53 significant bits, exponents from -1022\<close>
  "ulp x = 2 powi (max (ilog2 \<bar>x\<bar>) (- 1022) - 52)"

definition round_to_grid :: "rat \<Rightarrow> rat" where
  "round_to_grid x = (if x = 0 then 0 else of_int (round_half_even (x / ulp x)) * ulp x)"

definition float64_of_rat :: "rat \<Rightarrow> float64" where
  \<comment> \<open>a rounded magnitude of \<open>2^1024\<close> or more is an infinity\<close>
  "float64_of_rat x =
     (let y = round_to_grid x
      in if y = 0 then Finite 0
         else if 1024 \<le> ilog2 \<bar>y\<bar> then (if 0 < y then PosInf else NegInf)
         else Finite y)"

fun float_neg :: "float64 \<Rightarrow> float64" where
  "float_neg (Finite a) = Finite (- a)"
| "float_neg PosInf = NegInf"
| "float_neg NegInf = PosInf"
| "float_neg NaN = NaN"

fun float_add :: "float64 \<Rightarrow> float64 \<Rightarrow> float64" where
  "float_add (Finite a) (Finite b) = float64_of_rat (a + b)"
| "float_add NaN _ = NaN"
| "float_add _ NaN = NaN"
| "float_add PosInf NegInf = NaN"
| "float_add NegInf PosInf = NaN"
| "float_add PosInf _ = PosInf"
| "float_add _ PosInf = PosInf"
| "float_add NegInf _ = NegInf"
| "float_add _ NegInf = NegInf"

definition float_sub :: "float64 \<Rightarrow> float64 \<Rightarrow> float64" where
  "float_sub a b = float_add a (float_neg b)"

definition inf_of_sign :: "bool \<Rightarrow> float64" where
  "inf_of_sign positive = (if positive then PosInf else NegInf)"

fun float_mul :: "float64 \<Rightarrow> float64 \<Rightarrow> float64" where
  "float_mul (Finite a) (Finite b) = float64_of_rat (a * b)"
| "float_mul NaN _ = NaN"
| "float_mul _ NaN = NaN"
| "float_mul (Finite a) PosInf = (if a = 0 then NaN else inf_of_sign (0 < a))"
| "float_mul (Finite a) NegInf = (if a = 0 then NaN else inf_of_sign (a < 0))"
| "float_mul PosInf (Finite b) = (if b = 0 then NaN else inf_of_sign (0 < b))"
| "float_mul NegInf (Finite b) = (if b = 0 then NaN else inf_of_sign (b < 0))"
| "float_mul PosInf PosInf = PosInf"
| "float_mul NegInf NegInf = PosInf"
| "float_mul PosInf NegInf = NegInf"
| "float_mul NegInf PosInf = NegInf"

fun float_less :: "float64 \<Rightarrow> float64 \<Rightarrow> bool" where
  "float_less (Finite a) (Finite b) = (a < b)"
| "float_less NaN _ = False"
| "float_less _ NaN = False"
| "float_less NegInf NegInf = False"
| "float_less NegInf _ = True"
| "float_less _ NegInf = False"
| "float_less PosInf _ = False"
| "float_less _ PosInf = True"

fun is_finite :: "float64 \<Rightarrow> bool" where
  "is_finite (Finite _) = True"
| "is_finite _ = False"

section \<open>Errors, strings and JSON documents\<close>

datatype error =
    SyntaxError              \<comment> \<open>encoding/json: the bytes are not a JSON text\<close>
  | UnmarshalTypeError       \<comment> \<open>encoding/json: a JSON value does not fit the Go field\<close>
  | UnsupportedValueError    \<comment> \<open>encoding/json: NaN or an infinity cannot be encoded\<close>
  | ErrSyntax                \<comment> \<open>strconv: not a number\<close>
  | ErrRange                 \<comment> \<open>strconv: does not fit an int\<close>
  | ScanError                \<comment> \<open>database/sql: NULL scanned into a string\<close>
  | DatabaseError            \<comment> \<open>database/sql: the statement failed\<close>
  | ProduceError             \<comment> \<open>kafka: the message was not accepted by the client\<close>

text \<open>
  A JSON text is modelled by the document it denotes. A number literal is carried as the
  \<^verbatim>\<open>float64\<close> that \<^verbatim>\<open>strconv.ParseFloat\<close> reads from it (an infinity when the literal
  is out of range), and the encoder's shortest-digits output for a finite \<^verbatim>\<open>float64\<close>
  reads back as the same value. A byte string that is not a JSON text is \<open>None\<close>.
\<close>

datatype json =
    JNull
  | JBool bool
  | JNumber float64
  | JString string
  | JArray "json list"
  | JObject "(string \<times> json) list"

type_synonym bytes = "json option"

definition byte :: "char \<Rightarrow> int" where
  "byte c = of_char c"

definition is_cont :: "char \<Rightarrow> bool" where
  \<comment> \<open>a UTF-8 continuation byte, \<open>0x80..0xBF\<close>\<close>
  "is_cont c = (128 \<le> byte c \<and> byte c \<le> 191)"

definition rune_width :: "string \<Rightarrow> nat" where
  \<comment> \<open>\<^verbatim>\<open>utf8.DecodeRuneInString\<close>: the width of a valid first rune, \<open>0\<close> when the first
      byte does not start a valid encoding (overlong forms, surrogates and values above
      U+10FFFF are invalid)\<close>
  "rune_width s =
     (case s of
        [] \<Rightarrow> 0
      | c0 # r1 \<Rightarrow>
          if byte c0 < 128 then 1
          else if byte c0 < 194 then 0
          else (case r1 of
             [] \<Rightarrow> 0
           | c1 # r2 \<Rightarrow>
               if byte c0 < 224 then (if is_cont c1 then 2 else 0)
               else (case r2 of
                  [] \<Rightarrow> 0
                | c2 # r3 \<Rightarrow>
                    if byte c0 < 240 then
                      (if (if byte c0 = 224 then 160 \<le> byte c1 \<and> byte c1 \<le> 191
                           else if byte c0 = 237 then 128 \<le> byte c1 \<and> byte c1 \<le> 159
                           else is_cont c1) \<and> is_cont c2
                       then 3 else 0)
                    else (case r3 of
                       [] \<Rightarrow> 0
                     | c3 # r4 \<Rightarrow>
                         if byte c0 < 245 \<and>
                            (if byte c0 = 240 then 144 \<le> byte c1 \<and> byte c1 \<le> 191
                             else if byte c0 = 244 then 128 \<le> byte c1 \<and> byte c1 \<le> 143
                             else is_cont c1) \<and> is_cont c2 \<and> is_cont c3
                         then 4 else 0))))"

definition replacement_char :: string where
  \<comment> \<open>U+FFFD in UTF-8\<close>
  "replacement_char = [char_of (239::int), char_of (191::int), char_of (189::int)]"

function coerce_utf8 :: "string \<Rightarrow> string" where
  "coerce_utf8 [] = []"
| "coerce_utf8 (c # cs) =
     (if rune_width (c # cs) = 0 then replacement_char @ coerce_utf8 cs
      else take (rune_width (c # cs)) (c # cs) @ coerce_utf8 (drop (rune_width (c # cs)) (c # cs)))"
  by pat_completeness auto
termination
  by (relation "measure length") auto

text \<open>
  \<^verbatim>\<open>json.Marshal\<close> writes a Go string with every byte that is not part of a valid UTF-8
  encoding replaced by U+FFFD; the decoder returns what was written.
\<close>

definition marshal_string :: "string \<Rightarrow> json" where
  "marshal_string s = JString (coerce_utf8 s)"

definition marshal_float :: "float64 \<Rightarrow> error + json" where
  "marshal_float f = (if is_finite f then Inr (JNumber f) else Inl UnsupportedValueError)"

definition to_upper :: "char \<Rightarrow> char" where
  "to_upper c = (if 97 \<le> byte c \<and> byte c \<le> 122 then char_of (byte c - 32) else c)"

fun foldName :: "string \<Rightarrow> string" where
  \<comment> \<open>encoding/json matches an object key to a field name up to Unicode simple case
      folding: ASCII letters fold to upper case, and the only other runes that fold to
      ASCII are U+017F (long s) and U+212A (Kelvin sign)\<close>
  "foldName [] = []"
| "foldName (c # cs) =
     (if byte c = 197 then
        (case cs of
           [] \<Rightarrow> [c]
         | d # ds \<Rightarrow> if byte d = 191 then CHR ''S'' # foldName ds else c # foldName cs)
      else if byte c = 226 then
        (case cs of
           [] \<Rightarrow> [c]
         | d # ds \<Rightarrow>
             (case ds of
                [] \<Rightarrow> c # foldName cs
              | e # es \<Rightarrow>
                  if byte d = 132 \<and> byte e = 170 then CHR ''K'' # foldName es
                  else c # foldName cs))
      else to_upper c # foldName cs)"

definition key_matches :: "string \<Rightarrow> string \<Rightarrow> bool" where
  "key_matches key name = (key = name \<or> foldName key = foldName name)"

section \<open>The event types\<close>

record Location =
  Lat :: float64
  Lon :: float64

record User =
  ID :: string
  Name :: string
  Base :: Location

text \<open>
  \<^verbatim>\<open>CoordinateEvent\<close> is declared twice, in the producer and in the consumer, with the same
  fields and JSON names; the consumer's \<^verbatim>\<open>session_id\<close> carries \<^verbatim>\<open>omitempty\<close>. The
  coordinate fields are named \<open>CoordLat\<close> and \<open>CoordLon\<close> here, the fields of
  \<^verbatim>\<open>LocationEvent\<close> carry the prefix \<open>Loc\<close>.
\<close>

record CoordinateEvent =
  UserID :: string
  SessionID :: string
  CoordLat :: float64
  CoordLon :: float64
  Timestamp :: string

record LocationEvent =
  LocUserID :: string
  LocSessionID :: string
  LocLocation :: string
  LocLat :: float64
  LocLon :: float64
  LocTimestamp :: string

definition zero_event :: CoordinateEvent where
  \<comment> \<open>\<^verbatim>\<open>var event CoordinateEvent\<close>\<close>
  "zero_event = \<lparr>UserID = [], SessionID = [], CoordLat = Finite 0, CoordLon = Finite 0, Timestamp = []\<rparr>"

definition producer_Marshal :: "CoordinateEvent \<Rightarrow> error + json" where
  "producer_Marshal e =
     (case marshal_float (CoordLat e) of
        Inl err \<Rightarrow> Inl err
      | Inr la \<Rightarrow>
          (case marshal_float (CoordLon e) of
             Inl err \<Rightarrow> Inl err
           | Inr lo \<Rightarrow>
               Inr (JObject
                 [(''user_id'', marshal_string (UserID e)),
                  (''session_id'', marshal_string (SessionID e)),
                  (''lat'', la),
                  (''lon'', lo),
                  (''timestamp'', marshal_string (Timestamp e))])))"

definition consumer_Marshal :: "CoordinateEvent \<Rightarrow> error + json" where
  "consumer_Marshal e =
     (case marshal_float (CoordLat e) of
        Inl err \<Rightarrow> Inl err
      | Inr la \<Rightarrow>
          (case marshal_float (CoordLon e) of
             Inl err \<Rightarrow> Inl err
           | Inr lo \<Rightarrow>
               Inr (JObject
                 ([(''user_id'', marshal_string (UserID e))] @
                  (if SessionID e = [] then [] else [(''session_id'', marshal_string (SessionID e))]) @
                  [(''lat'', la),
                   (''lon'', lo),
                   (''timestamp'', marshal_string (Timestamp e))]))))"

definition LocationEvent_Marshal :: "LocationEvent \<Rightarrow> error + json" where
  "LocationEvent_Marshal e =
     (case marshal_float (LocLat e) of
        Inl err \<Rightarrow> Inl err
      | Inr la \<Rightarrow>
          (case marshal_float (LocLon e) of
             Inl err \<Rightarrow> Inl err
           | Inr lo \<Rightarrow>
               Inr (JObject
                 [(''user_id'', marshal_string (LocUserID e)),
                  (''session_id'', marshal_string (LocSessionID e)),
                  (''location'', marshal_string (LocLocation e)),
                  (''lat'', la),
                  (''lon'', lo),
                  (''timestamp'', marshal_string (LocTimestamp e))])))"

text \<open>
  Decoding into a \<^verbatim>\<open>CoordinateEvent\<close>: \<^verbatim>\<open>null\<close> leaves the target as it is, an object is
  read member by member (a later duplicate overwrites, an unknown key is ignored, a
  \<^verbatim>\<open>null\<close> member leaves its field), any other document is a type error. Both callers
  discard the target when an error is returned, so the model returns the error alone.
\<close>

definition decode_string :: "json \<Rightarrow> string \<Rightarrow> error + string" where
  "decode_string v old =
     (case v of JString s \<Rightarrow> Inr s | JNull \<Rightarrow> Inr old | _ \<Rightarrow> Inl UnmarshalTypeError)"

definition decode_float :: "json \<Rightarrow> float64 \<Rightarrow> error + float64" where
  "decode_float v old =
     (case v of
        JNumber f \<Rightarrow> if is_finite f then Inr f else Inl UnmarshalTypeError
      | JNull \<Rightarrow> Inr old
      | _ \<Rightarrow> Inl UnmarshalTypeError)"

definition decode_member :: "string \<Rightarrow> json \<Rightarrow> CoordinateEvent \<Rightarrow> error + CoordinateEvent" where
  "decode_member k v e =
     (if key_matches k ''user_id'' then
        (case decode_string v (UserID e) of Inl err \<Rightarrow> Inl err | Inr s \<Rightarrow> Inr (e\<lparr>UserID := s\<rparr>))
      else if key_matches k ''session_id'' then
        (case decode_string v (SessionID e) of Inl err \<Rightarrow> Inl err | Inr s \<Rightarrow> Inr (e\<lparr>SessionID := s\<rparr>))
      else if key_matches k ''lat'' then
        (case decode_float v (CoordLat e) of Inl err \<Rightarrow> Inl err | Inr f \<Rightarrow> Inr (e\<lparr>CoordLat := f\<rparr>))
      else if key_matches k ''lon'' then
        (case decode_float v (CoordLon e) of Inl err \<Rightarrow> Inl err | Inr f \<Rightarrow> Inr (e\<lparr>CoordLon := f\<rparr>))
      else if key_matches k ''timestamp'' then
        (case decode_string v (Timestamp e) of Inl err \<Rightarrow> Inl err | Inr s \<Rightarrow> Inr (e\<lparr>Timestamp := s\<rparr>))
      else Inr e)"

fun decode_members :: "(string \<times> json) list \<Rightarrow> CoordinateEvent \<Rightarrow> error + CoordinateEvent" where
  "decode_members [] e = Inr e"
| "decode_members ((k, v) # kvs) e =
     (case decode_member k v e of Inl err \<Rightarrow> Inl err | Inr e' \<Rightarrow> decode_members kvs e')"

definition Unmarshal :: "bytes \<Rightarrow> CoordinateEvent \<Rightarrow> error + CoordinateEvent" where
  "Unmarshal data e =
     (case data of
        None \<Rightarrow> Inl SyntaxError
      | Some JNull \<Rightarrow> Inr e
      | Some (JObject kvs) \<Rightarrow> decode_members kvs e
      | Some _ \<Rightarrow> Inl UnmarshalTypeError)"

section \<open>The coordinates table\<close>

text \<open>
  The table \<^verbatim>\<open>coordinates\<close> as the sink creates it: \<^verbatim>\<open>session_id\<close> is the one column
  that may hold NULL. Rows are kept in rowid order; \<open>seq\<close> is the largest rowid handed
  out so far (AUTOINCREMENT).
\<close>

record StoredRow =
  row_id :: nat
  user_id :: string
  session_id :: "string option"
  lat :: float64
  lon :: float64
  timestamp :: string

record DB =
  coordinates :: "StoredRow list"
  seq :: nat

definition row_of_event :: "nat \<Rightarrow> CoordinateEvent \<Rightarrow> StoredRow" where
  \<comment> \<open>\<^verbatim>\<open>INSERT INTO coordinates (user_id, session_id, lat, lon, timestamp) VALUES (?, ?, ?, ?, ?)\<close>
      bound to \<^verbatim>\<open>event.UserID, event.SessionID, event.Lat, event.Lon, event.Timestamp\<close>\<close>
  "row_of_event i e =
     \<lparr>row_id = i, user_id = UserID e, session_id = Some (SessionID e),
      lat = CoordLat e, lon = CoordLon e, timestamp = Timestamp e\<rparr>"

definition stmt_Exec :: "error option \<Rightarrow> DB \<Rightarrow> CoordinateEvent \<Rightarrow> error + DB" where
  \<comment> \<open>\<open>fault\<close> is the engine's failure on this call, if any (locked or unwritable file);
      a NaN is bound as NULL, which the NOT NULL columns reject\<close>
  "stmt_Exec fault db e =
     (case fault of
        Some err \<Rightarrow> Inl err
      | None \<Rightarrow>
          if CoordLat e = NaN \<or> CoordLon e = NaN then Inl DatabaseError
          else Inr (db\<lparr>coordinates := coordinates db @ [row_of_event (Suc (seq db)) e],
                        seq := Suc (seq db)\<rparr>))"

definition order_by_timestamp_desc :: "StoredRow list \<Rightarrow> StoredRow list" where
  \<comment> \<open>\<^verbatim>\<open>ORDER BY timestamp DESC\<close> on a TEXT column: bytewise comparison; rows with equal
      timestamps are left in rowid order\<close>
  "order_by_timestamp_desc rows = rev (sort_key timestamp (rev rows))"

definition sql_limit :: "int \<Rightarrow> 'a list \<Rightarrow> 'a list" where
  \<comment> \<open>\<^verbatim>\<open>LIMIT ?\<close>: a negative bound means no bound\<close>
  "sql_limit n xs = (if n < 0 then xs else take (nat n) xs)"

definition db_Query :: "error option \<Rightarrow> DB \<Rightarrow> string option \<Rightarrow> int \<Rightarrow> error + StoredRow list" where
  \<comment> \<open>\<^verbatim>\<open>SELECT user_id, session_id, lat, lon, timestamp FROM coordinates WHERE 1=1\<close>,
      \<^verbatim>\<open>AND user_id = ?\<close> when a user is given, \<^verbatim>\<open>ORDER BY timestamp DESC LIMIT ?\<close>;
      \<open>fault\<close> is the engine's failure on this call, if any\<close>
  "db_Query fault db user n =
     (case fault of
        Some err \<Rightarrow> Inl err
      | None \<Rightarrow>
          Inr (sql_limit n (order_by_timestamp_desc
                 (filter (\<lambda>r. case user of None \<Rightarrow> True | Some u \<Rightarrow> user_id r = u)
                    (coordinates db)))))"

definition Scan :: "StoredRow \<Rightarrow> error + CoordinateEvent" where
  "Scan r =
     (case session_id r of
        None \<Rightarrow> Inl ScanError
      | Some s \<Rightarrow>
          Inr \<lparr>UserID = user_id r, SessionID = s, CoordLat = lat r, CoordLon = lon r,
               Timestamp = timestamp r\<rparr>)"

section \<open>The sink: query endpoint\<close>

datatype 'a slice = NilSlice | Slice "'a list"

fun append_slice :: "'a slice \<Rightarrow> 'a \<Rightarrow> 'a slice" where
  "append_slice NilSlice x = Slice [x]"
| "append_slice (Slice xs) x = Slice (xs @ [x])"

datatype Body = NoBody | TextBody string | JsonBody json

record Response =
  status :: nat
  body :: Body

record Request =
  req_method :: string
  req_query :: "(string \<times> string) list"
  req_body :: bytes

definition Get :: "(string \<times> string) list \<Rightarrow> string \<Rightarrow> string" where
  \<comment> \<open>\<^verbatim>\<open>url.Values.Get\<close>: the first value of the key, the empty string when there is none\<close>
  "Get vs key = (case map_of vs key of None \<Rightarrow> [] | Some v \<Rightarrow> v)"

definition http_Error :: "string \<Rightarrow> nat \<Rightarrow> Response" where
  "http_Error msg code = \<lparr>status = code, body = TextBody (msg @ [char_of (10::int)])\<rparr>"

definition digit :: "char \<Rightarrow> int option" where
  "digit c = (if 48 \<le> byte c \<and> byte c \<le> 57 then Some (byte c - 48) else None)"

fun digits_value :: "string \<Rightarrow> int \<Rightarrow> int option" where
  "digits_value [] acc = Some acc"
| "digits_value (c # cs) acc =
     (case digit c of None \<Rightarrow> None | Some d \<Rightarrow> digits_value cs (acc * 10 + d))"

definition Atoi :: "string \<Rightarrow> error + int" where
  \<comment> \<open>\<^verbatim>\<open>strconv.Atoi\<close> for a 64-bit \<^verbatim>\<open>int\<close>: an optional sign, then decimal digits\<close>
  "Atoi s =
     (let neg = (s \<noteq> [] \<and> hd s = CHR ''-'');
          ds = (if s \<noteq> [] \<and> (hd s = CHR ''-'' \<or> hd s = CHR ''+'') then tl s else s)
      in if ds = [] then Inl ErrSyntax
         else (case digits_value ds 0 of
            None \<Rightarrow> Inl ErrSyntax
          | Some n \<Rightarrow>
              if neg then (if n \<le> 2 ^ 63 then Inr (- n) else Inl ErrRange)
              else (if n < 2 ^ 63 then Inr n else Inl ErrRange)))"

definition limitNum :: "string \<Rightarrow> int" where
  "limitNum limit =
     (if limit \<noteq> [] then
        (case Atoi limit of Inr n \<Rightarrow> if 0 < n then n else 50 | Inl err \<Rightarrow> 50)
      else 50)"

fun collect :: "StoredRow list \<Rightarrow> CoordinateEvent slice \<Rightarrow> CoordinateEvent slice" where
  "collect [] events = events"
| "collect (r # rs) events =
     (case Scan r of
        Inl err \<Rightarrow> collect rs events
      | Inr event \<Rightarrow> collect rs (append_slice events event))"

fun marshal_all :: "CoordinateEvent list \<Rightarrow> error + json list" where
  "marshal_all [] = Inr []"
| "marshal_all (e # es) =
     (case consumer_Marshal e of
        Inl err \<Rightarrow> Inl err
      | Inr j \<Rightarrow> (case marshal_all es of Inl err \<Rightarrow> Inl err | Inr js \<Rightarrow> Inr (j # js)))"

definition Encode :: "CoordinateEvent slice \<Rightarrow> error + json" where
  \<comment> \<open>a nil slice encodes as \<^verbatim>\<open>null\<close>, any other slice as an array\<close>
  "Encode events =
     (case events of
        NilSlice \<Rightarrow> Inr JNull
      | Slice es \<Rightarrow> (case marshal_all es of Inl err \<Rightarrow> Inl err | Inr js \<Rightarrow> Inr (JArray js)))"

definition getEvents_events :: "error option \<Rightarrow> DB \<Rightarrow> Request \<Rightarrow> error + CoordinateEvent slice" where
  \<comment> \<open>the slice \<^verbatim>\<open>events\<close> that the handler has collected when it reaches \<^verbatim>\<open>Encode\<close>\<close>
  "getEvents_events fault db r =
     (let userID = Get (req_query r) ''user_id'';
          limit = Get (req_query r) ''limit''
      in case db_Query fault db (if userID \<noteq> [] then Some userID else None) (limitNum limit) of
           Inl err \<Rightarrow> Inl err
         | Inr rows \<Rightarrow> Inr (collect rows (Slice [])))"

definition getEvents :: "error option \<Rightarrow> DB \<Rightarrow> Request \<Rightarrow> Response" where
  \<comment> \<open>the response headers (CORS, content type) are left out; an encoding error is
      dropped by the handler, which has then written nothing\<close>
  "getEvents fault db r =
     (case getEvents_events fault db r of
        Inl err \<Rightarrow> http_Error ''Database error'' 500
      | Inr events \<Rightarrow>
          (case Encode events of
             Inl err \<Rightarrow> \<lparr>status = 200, body = NoBody\<rparr>
           | Inr j \<Rightarrow> \<lparr>status = 200, body = JsonBody j\<rparr>))"




section \<open>The sink: consume loop\<close>

datatype kafka_event = Message bytes | KafkaError | OtherEvent

datatype log_entry =
    LogSignal
  | LogUnmarshalError
  | LogInsertError
  | LogStored CoordinateEvent
  | LogKafkaError

text \<open>
  What one iteration of the loop meets: whether a signal is waiting on \<^verbatim>\<open>sigChan\<close>, what
  \<^verbatim>\<open>c.Poll(100)\<close> returns (\<open>None\<close> for \<^verbatim>\<open>nil\<close>), and whether the engine fails the insert.
\<close>

record Iteration =
  signal :: bool
  poll :: "kafka_event option"
  exec_fault :: "error option"

record Sink =
  sink_db :: DB
  sink_log :: "log_entry list"

definition consume_iteration :: "Iteration \<Rightarrow> Sink \<Rightarrow> bool \<times> Sink" where
  \<comment> \<open>the result is the new value of \<^verbatim>\<open>running\<close> and the sink's state\<close>
  "consume_iteration it s =
     (if signal it then (False, s\<lparr>sink_log := sink_log s @ [LogSignal]\<rparr>)
      else (case poll it of
         None \<Rightarrow> (True, s)
       | Some (Message v) \<Rightarrow>
           (case Unmarshal v zero_event of
              Inl err \<Rightarrow> (True, s\<lparr>sink_log := sink_log s @ [LogUnmarshalError]\<rparr>)
            | Inr event \<Rightarrow>
                (case stmt_Exec (exec_fault it) (sink_db s) event of
                   Inl err \<Rightarrow> (True, s\<lparr>sink_log := sink_log s @ [LogInsertError]\<rparr>)
                 | Inr db' \<Rightarrow> (True, \<lparr>sink_db = db', sink_log = sink_log s @ [LogStored event]\<rparr>)))
       | Some KafkaError \<Rightarrow> (True, s\<lparr>sink_log := sink_log s @ [LogKafkaError]\<rparr>)
       | Some OtherEvent \<Rightarrow> (True, s)))"

fun consume_loop :: "Iteration list \<Rightarrow> Sink \<Rightarrow> Sink" where
  "consume_loop [] s = s"
| "consume_loop (it # its) s =
     (case consume_iteration it s of
        (running, s') \<Rightarrow> if running then consume_loop its s' else s')"

section \<open>The generator\<close>

definition users :: "User list" where
  "users =
     [\<lparr>ID = ''Ashish'', Name = ''Ashish'',
       Base = \<lparr>Lat = float64_of_rat 40.7128, Lon = float64_of_rat (- 74.0060)\<rparr>\<rparr>,
      \<lparr>ID = ''Saranya'', Name = ''Saranya'',
       Base = \<lparr>Lat = float64_of_rat 34.0522, Lon = float64_of_rat (- 118.2437)\<rparr>\<rparr>,
      \<lparr>ID = ''Cookie'', Name = ''Cookie'',
       Base = \<lparr>Lat = float64_of_rat 51.5074, Lon = float64_of_rat (- 0.1278)\<rparr>\<rparr>]"

definition locations :: "string list" where
  "locations = [''Park'', ''Trailhead'', ''Downtown'', ''Beach'']"

definition generateCoordinate :: "Location \<Rightarrow> float64 \<Rightarrow> float64 \<Rightarrow> Location" where
  \<comment> \<open>\<open>r1\<close> and \<open>r2\<close> are the two results of \<^verbatim>\<open>rand.Float64()\<close>, in the order of the calls;
      each operation rounds on its own (no fused multiply-add)\<close>
  "generateCoordinate base r1 r2 =
     \<lparr>Lat = float_sub (float_add (Lat base) (float_mul r1 (float64_of_rat 0.02))) (float64_of_rat 0.01),
      Lon = float_sub (float_add (Lon base) (float_mul r2 (float64_of_rat 0.02))) (float64_of_rat 0.01)\<rparr>"

definition unit_interval :: "float64 \<Rightarrow> bool" where
  \<comment> \<open>what \<^verbatim>\<open>rand.Float64()\<close> returns: a number in \<open>[0.0, 1.0)\<close>\<close>
  "unit_interval f = (case f of Finite q \<Rightarrow> 0 \<le> q \<and> q < 1 | _ \<Rightarrow> False)"

record KafkaMessage =
  Topic :: string
  Key :: string
  Value :: bytes

text \<open>
  The producer client is modelled by the calls of \<^verbatim>\<open>Produce\<close> it has received, each with
  the error the call returned, if any.
\<close>

type_synonym attempts = "(KafkaMessage \<times> error option) list"

definition Produce :: "error option \<Rightarrow> KafkaMessage \<Rightarrow> attempts \<Rightarrow> attempts" where
  "Produce fault msg calls = calls @ [(msg, fault)]"

datatype gen_log =
    LogStart nat
  | LogStop
  | LogMarshalCoordinate
  | LogProduceCoordinate
  | LogMarshalLocation
  | LogProduceLocation

record Gen =
  calls :: attempts
  gen_log :: "gen_log list"

text \<open>
  What the loop body meets for one user: the random numbers it draws (\<open>loc_index\<close> is the
  raw sample behind \<^verbatim>\<open>rand.Intn\<close>), the clock, and the outcome of each \<^verbatim>\<open>Produce\<close>.
\<close>

record Draw =
  r_lat :: float64
  r_lon :: float64
  r_loc :: float64
  loc_index :: nat
  clock :: string
  coord_fault :: "error option"
  loc_fault :: "error option"

definition Intn :: "nat \<Rightarrow> nat \<Rightarrow> nat" where
  "Intn sample n = sample mod n"

definition coordEvent :: "User \<Rightarrow> Draw \<Rightarrow> CoordinateEvent" where
  "coordEvent user d =
     (let pos = generateCoordinate (Base user) (r_lat d) (r_lon d)
      in \<lparr>UserID = ID user, SessionID = ''s1'', CoordLat = Lat pos, CoordLon = Lon pos,
           Timestamp = clock d\<rparr>)"

definition locEvent :: "User \<Rightarrow> Draw \<Rightarrow> LocationEvent" where
  "locEvent user d =
     (let pos = generateCoordinate (Base user) (r_lat d) (r_lon d)
      in \<lparr>LocUserID = ID user, LocSessionID = ''s1'',
           LocLocation = locations ! Intn (loc_index d) (length locations),
           LocLat = Lat pos, LocLon = Lon pos, LocTimestamp = clock d\<rparr>)"

definition log_if :: "error option \<Rightarrow> gen_log \<Rightarrow> gen_log list \<Rightarrow> gen_log list" where
  "log_if fault entry l = (case fault of None \<Rightarrow> l | Some err \<Rightarrow> l @ [entry])"

definition user_step :: "User \<Rightarrow> Draw \<Rightarrow> Gen \<Rightarrow> Gen" where
  \<comment> \<open>the body of \<^verbatim>\<open>for _, user := range users\<close>; \<^verbatim>\<open>Flush(0)\<close> only serves callbacks\<close>
  "user_step user d g =
     (case producer_Marshal (coordEvent user d) of
        Inl err \<Rightarrow> g\<lparr>gen_log := gen_log g @ [LogMarshalCoordinate]\<rparr>
      | Inr coordData \<Rightarrow>
          (let g1 = \<lparr>calls = Produce (coord_fault d)
                              \<lparr>Topic = ''coordinates'', Key = ID user, Value = Some coordData\<rparr> (calls g),
                    gen_log = log_if (coord_fault d) LogProduceCoordinate (gen_log g)\<rparr>
           in if float_less (r_loc d) (float64_of_rat 0.1) then
                (case LocationEvent_Marshal (locEvent user d) of
                   Inl err \<Rightarrow> g1\<lparr>gen_log := gen_log g1 @ [LogMarshalLocation]\<rparr>
                 | Inr locData \<Rightarrow>
                     \<lparr>calls = Produce (loc_fault d)
                               \<lparr>Topic = ''locations'', Key = ID user, Value = Some locData\<rparr> (calls g1),
                      gen_log = log_if (loc_fault d) LogProduceLocation (gen_log g1)\<rparr>)
              else g1))"

fun range_users :: "User list \<Rightarrow> nat \<Rightarrow> (nat \<Rightarrow> Draw) \<Rightarrow> Gen \<Rightarrow> Gen" where
  \<comment> \<open>one pass over the roster; \<open>draws i\<close> is what the body meets for the \<open>i\<close>-th user\<close>
  "range_users [] i draws g = g"
| "range_users (user # rest) i draws g = range_users rest (Suc i) draws (user_step user (draws i) g)"

text \<open>
  One element of the trace per arrival at the \<^verbatim>\<open>select\<close>: whether a value is waiting on
  \<^verbatim>\<open>done\<close>, and the draws of the pass that follows if none is. The loop has no other
  exit, so a trace that ends without a stop leaves it running (\<open>False\<close>).
\<close>

record Tick =
  done_ready :: bool
  draws :: "nat \<Rightarrow> Draw"

fun tick_loop :: "Tick list \<Rightarrow> Gen \<Rightarrow> bool \<times> Gen" where
  "tick_loop [] g = (False, g)"
| "tick_loop (t # ts) g =
     (if done_ready t then (True, g\<lparr>gen_log := gen_log g @ [LogStop]\<rparr>)
      else tick_loop ts (range_users users 0 (draws t) g))"

definition generateEvents :: "Tick list \<Rightarrow> Gen \<Rightarrow> bool \<times> Gen" where
  "generateEvents ticks g = tick_loop ticks (g\<lparr>gen_log := gen_log g @ [LogStart (length users)]\<rparr>)"

section \<open>The generator: manual ingress\<close>

datatype delivery = Delivered | DeliveryFailed | Unconfirmed

text \<open>
  What one request meets: the clock, the outcome of \<^verbatim>\<open>Produce\<close>, and what becomes of the
  message afterwards. The delivery report goes to the channel that \<^verbatim>\<open>deliveryReport\<close>
  drains into the log; \<^verbatim>\<open>Flush(1000)\<close> returns the number of events still outstanding
  when its timeout expires.
\<close>

record Ingress =
  ingress_clock :: string
  produce_fault :: "error option"
  report :: delivery

definition Flush :: "delivery \<Rightarrow> nat" where
  "Flush d = (if d = Unconfirmed then 1 else 0)"

text \<open>
  The body is read by \<^verbatim>\<open>json.NewDecoder(r.Body).Decode\<close>, which takes the first JSON value
  of the body and leaves what follows it unread: \<open>post_body\<close> is that value (\<open>None\<close> when the
  decoder finds none), \<open>post_trailing\<close> tells whether anything but white space follows it.
\<close>

record Post =
  post_method :: string
  post_body :: bytes
  post_trailing :: bool

definition publish :: "Ingress \<Rightarrow> CoordinateEvent \<Rightarrow> attempts \<Rightarrow> Response \<times> attempts" where
  \<comment> \<open>the handler from the default of the timestamp on; the result of \<^verbatim>\<open>Flush\<close> is discarded\<close>
  "publish env decoded cs =
     (let event = (if Timestamp decoded = [] then decoded\<lparr>Timestamp := ingress_clock env\<rparr>
                   else decoded)
      in case producer_Marshal event of
           Inl err \<Rightarrow> (http_Error ''Error serializing event'' 500, cs)
         | Inr data \<Rightarrow>
             (let cs' = Produce (produce_fault env)
                          \<lparr>Topic = ''coordinates'', Key = UserID event, Value = Some data\<rparr> cs
              in case produce_fault env of
                   Some err \<Rightarrow> (http_Error ''Error producing message'' 500, cs')
                 | None \<Rightarrow>
                     (let outstanding = Flush (report env)
                      in (\<lparr>status = 200, body = TextBody ''ok''\<rparr>, cs'))))"

definition produce_handler :: "Ingress \<Rightarrow> Post \<Rightarrow> attempts \<Rightarrow> Response \<times> attempts" where
  "produce_handler env r cs =
     (if post_method r \<noteq> ''POST'' then (http_Error ''POST only'' 405, cs)
      else (case Unmarshal (post_body r) zero_event of
         Inl err \<Rightarrow> (http_Error ''Invalid JSON'' 400, cs)
       | Inr decoded \<Rightarrow> publish env decoded cs))"

section \<open>Notions of the specification\<close>

definition near_base :: "float64 \<Rightarrow> float64 \<Rightarrow> bool" where
  \<comment> \<open>both finite and at most 0.01, up to rounding, apart\<close>
  "near_base b v =
     (case b of
        Finite x \<Rightarrow> (case v of Finite y \<Rightarrow> \<bar>y - x\<bar> \<le> 1 / 100 + 2 powi (- 44) | _ \<Rightarrow> False)
      | _ \<Rightarrow> False)"

definition in_degrees :: "Location \<Rightarrow> bool" where
  \<comment> \<open>a point on the globe: finite coordinates of at most 180 degrees\<close>
  "in_degrees l =
     ((case Lat l of Finite x \<Rightarrow> \<bar>x\<bar> \<le> 180 | _ \<Rightarrow> False) \<and>
      (case Lon l of Finite x \<Rightarrow> \<bar>x\<bar> \<le> 180 | _ \<Rightarrow> False))"

definition well_formed :: "CoordinateEvent \<Rightarrow> bool" where
  \<comment> \<open>a well-formed event: its strings are valid UTF-8, its coordinates are numbers\<close>
  "well_formed e =
     (coerce_utf8 (UserID e) = UserID e \<and> coerce_utf8 (SessionID e) = SessionID e \<and>
      coerce_utf8 (Timestamp e) = Timestamp e \<and> is_finite (CoordLat e) \<and> is_finite (CoordLon e))"

definition positive_decimal :: "string \<Rightarrow> bool" where
  \<comment> \<open>a decimal numeral of a positive integer: digits, not all of them zero, after an
      optional plus sign\<close>
  "positive_decimal s =
     (let ds = (if s \<noteq> [] \<and> hd s = CHR ''+'' then tl s else s)
      in ds \<noteq> [] \<and> list_all (\<lambda>c. digit c \<noteq> None) ds \<and>
         list_ex (\<lambda>c. digit c \<noteq> None \<and> digit c \<noteq> Some 0) ds)"

definition matches_filters :: "Request \<Rightarrow> StoredRow \<Rightarrow> bool" where
  \<comment> \<open>the row passes the \<^verbatim>\<open>WHERE\<close> clause that the handler builds for the request\<close>
  "matches_filters r row =
     (Get (req_query r) ''user_id'' = [] \<or> user_id row = Get (req_query r) ''user_id'')"

definition stamped :: "Ingress \<Rightarrow> CoordinateEvent \<Rightarrow> CoordinateEvent" where
  \<comment> \<open>the decoded event with its timestamp set to the clock when it has none\<close>
  "stamped env decoded =
     (if Timestamp decoded = [] then decoded\<lparr>Timestamp := ingress_clock env\<rparr> else decoded)"

definition whole_body :: "Post \<Rightarrow> bytes" where
  \<comment> \<open>the body read as one JSON text: none when more than a single value is in it\<close>
  "whole_body r = (if post_trailing r then None else post_body r)"

definition event_document :: "bytes \<Rightarrow> bool" where
  \<comment> \<open>JSON for an event is a JSON text that is an object\<close>
  "event_document b = (case b of Some (JObject kvs) \<Rightarrow> True | _ \<Rightarrow> False)"

definition number :: "string \<Rightarrow> int option" where
  "number s = (if s = [] then None else digits_value s 0)"

definition days_from_civil :: "int \<Rightarrow> int \<Rightarrow> int \<Rightarrow> int" where
  \<comment> \<open>days from 1970-01-01 to the given day of the Gregorian calendar\<close>
  "days_from_civil y m d =
     (let y' = (if m \<le> 2 then y - 1 else y);
          era = y' div 400;
          yoe = y' mod 400;
          doy = (153 * (if 2 < m then m - 3 else m + 9) + 2) div 5 + d - 1;
          doe = yoe * 365 + yoe div 4 - yoe div 100 + doy
      in era * 146097 + doe - 719468)"

definition zone_offset :: "string \<Rightarrow> int option" where
  \<comment> \<open>\<^verbatim>\<open>Z\<close> or \<^verbatim>\<open>+hh:mm\<close> or \<^verbatim>\<open>-hh:mm\<close>, in seconds\<close>
  "zone_offset z =
     (if z = ''Z'' then Some 0
      else if length z = 6 \<and> (hd z = CHR ''+'' \<or> hd z = CHR ''-'') \<and> z ! 3 = CHR '':'' then
        (case those [number (take 2 (drop 1 z)), number (drop 4 z)] of
           Some [h, m] \<Rightarrow> Some ((if hd z = CHR ''-'' then - 1 else 1) * (h * 3600 + m * 60))
         | _ \<Rightarrow> None)
      else None)"

definition instant :: "string \<Rightarrow> int option" where
  \<comment> \<open>the instant that an RFC 3339 timestamp \<^verbatim>\<open>yyyy-mm-ddThh:mm:ss\<close> with a zone denotes, in
      seconds since 1970-01-01T00:00:00Z; fractions of a second are not read\<close>
  "instant s =
     (if length s < 20 \<or> s ! 4 \<noteq> CHR ''-'' \<or> s ! 7 \<noteq> CHR ''-'' \<or> s ! 10 \<noteq> CHR ''T''
         \<or> s ! 13 \<noteq> CHR '':'' \<or> s ! 16 \<noteq> CHR '':'' then None
      else (case those [number (take 4 s), number (take 2 (drop 5 s)), number (take 2 (drop 8 s)),
                        number (take 2 (drop 11 s)), number (take 2 (drop 14 s)),
                        number (take 2 (drop 17 s)), zone_offset (drop 19 s)] of
         Some [y, mo, d, h, mi, se, off] \<Rightarrow>
           Some (days_from_civil y mo d * 86400 + h * 3600 + mi * 60 + se - off)
       | _ \<Rightarrow> None))"

definition valid_draw :: "Draw \<Rightarrow> bool" where
  "valid_draw d = (unit_interval (r_lat d) \<and> unit_interval (r_lon d) \<and> unit_interval (r_loc d))"

definition coordinate_calls :: "Gen \<Rightarrow> KafkaMessage list" where
  \<comment> \<open>the messages handed to \<^verbatim>\<open>Produce\<close> for the topic \<^verbatim>\<open>coordinates\<close>, in order\<close>
  "coordinate_calls g = filter (\<lambda>m. Topic m = ''coordinates'') (map fst (calls g))"

definition encoded :: "CoordinateEvent \<Rightarrow> json" where
  \<comment> \<open>the document the producer writes for an event with finite coordinates\<close>
  "encoded e =
     JObject
       [(''user_id'', marshal_string (UserID e)),
        (''session_id'', marshal_string (SessionID e)),
        (''lat'', JNumber (CoordLat e)),
        (''lon'', JNumber (CoordLon e)),
        (''timestamp'', marshal_string (Timestamp e))]"

definition coordinate_message :: "User \<Rightarrow> Draw \<Rightarrow> KafkaMessage" where
  "coordinate_message user d =
     \<lparr>Topic = ''coordinates'', Key = ID user, Value = Some (encoded (coordEvent user d))\<rparr>"

definition roster_pass :: "(nat \<Rightarrow> Draw) \<Rightarrow> KafkaMessage list" where
  \<comment> \<open>one coordinate message per roster user, in roster order\<close>
  "roster_pass ds = map2 coordinate_message users (map ds [0..<length users])"

section \<open>Sample states\<close>

definition sample_event :: CoordinateEvent where
  "sample_event =
     \<lparr>UserID = ''u1'', SessionID = ''s1'', CoordLat = Finite 10, CoordLon = Finite 20,
      Timestamp = ''2024-01-01T00:00:00Z''\<rparr>"

definition sample_db :: DB where
  \<comment> \<open>two events of \<open>u1\<close>, then one of \<open>u2\<close>\<close>
  "sample_db =
     \<lparr>coordinates =
        [\<lparr>row_id = 1, user_id = ''u1'', session_id = Some ''s1'', lat = Finite 10, lon = Finite 20,
          timestamp = ''2024-01-01T00:00:00Z''\<rparr>,
         \<lparr>row_id = 2, user_id = ''u1'', session_id = Some ''s1'', lat = Finite 10, lon = Finite 20,
          timestamp = ''2024-01-01T00:00:05Z''\<rparr>,
         \<lparr>row_id = 3, user_id = ''u2'', session_id = Some ''s1'', lat = Finite 30, lon = Finite 40,
          timestamp = ''2024-01-01T00:00:10Z''\<rparr>],
      seq = 3\<rparr>"

definition sample_sink :: Sink where
  "sample_sink = \<lparr>sink_db = sample_db, sink_log = []\<rparr>"

definition sample_draw :: Draw where
  "sample_draw =
     \<lparr>r_lat = Finite (1 / 4), r_lon = Finite 0, r_loc = Finite (1 / 2), loc_index = 6,
      clock = ''2024-01-01T00:00:00Z'', coord_fault = None, loc_fault = None\<rparr>"

definition sample_gen :: Gen where
  "sample_gen = \<lparr>calls = [], gen_log = []\<rparr>"

definition sample_ingress :: Ingress where
  "sample_ingress =
     \<lparr>ingress_clock = ''2024-01-01T00:00:00Z'', produce_fault = None, report = DeliveryFailed\<rparr>"

definition sample_post :: Post where
  "sample_post =
     \<lparr>post_method = ''POST'',
      post_body = Some (JObject [(''user_id'', JString ''u1''), (''lat'', JNumber (Finite 10)),
                                 (''lon'', JNumber (Finite 20))]),
      post_trailing = False\<rparr>"

definition offsets_db :: DB where
  \<comment> \<open>two events of \<open>u1\<close> as the ingress takes them: the second is stamped in another zone
      and is an hour older than the first\<close>
  "offsets_db =
     \<lparr>coordinates =
        [\<lparr>row_id = 1, user_id = ''u1'', session_id = Some ''s1'', lat = Finite 10, lon = Finite 20,
          timestamp = ''2024-01-01T02:00:00Z''\<rparr>,
         \<lparr>row_id = 2, user_id = ''u1'', session_id = Some ''s1'', lat = Finite 10, lon = Finite 20,
          timestamp = ''2024-01-01T10:00:00+09:00''\<rparr>],
      seq = 2\<rparr>"


section \<open>Rounding\<close>

lemma bitlen_pos: "0 < n \<Longrightarrow> 1 \<le> bitlen n"
proof (induction n rule: bitlen.induct)
  case (1 n)
  have "0 \<le> bitlen (n div 2)"
  proof (cases "0 < n div 2")
    case True
    with "1.IH" "1.prems" show ?thesis by simp
  next
    case False
    then show ?thesis by (simp add: bitlen.simps [of "n div 2"])
  qed
  with "1.prems" show ?case by (simp add: bitlen.simps [of n])
qed

lemma bitlen_bounds:
  "0 < n \<Longrightarrow> 2 ^ nat (bitlen n - 1) \<le> n \<and> n < 2 ^ nat (bitlen n)"
proof (induction n rule: bitlen.induct)
  case (1 n)
  show ?case
  proof (cases "0 < n div 2")
    case True
    with "1.IH" "1.prems" have ih: "2 ^ nat (bitlen (n div 2) - 1) \<le> n div 2" "n div 2 < 2 ^ nat (bitlen (n div 2))"
      by simp_all
    from True have b1: "1 \<le> bitlen (n div 2)" by (rule bitlen_pos)
    from "1.prems" have eq: "bitlen n = 1 + bitlen (n div 2)" by (simp add: bitlen.simps [of n])
    from b1 have e1: "nat (bitlen n - 1) = Suc (nat (bitlen (n div 2) - 1))" unfolding eq by simp
    from b1 have e2: "nat (bitlen n) = Suc (nat (bitlen (n div 2)))" unfolding eq by simp
    from ih(1) have "2 * 2 ^ nat (bitlen (n div 2) - 1) \<le> n" by linarith
    moreover from ih(2) have "n < 2 * 2 ^ nat (bitlen (n div 2))" by linarith
    ultimately show ?thesis unfolding e1 e2 by simp
  next
    case False
    with "1.prems" have "n = 1" by linarith
    then show ?thesis by (simp add: bitlen.simps [of 1] bitlen.simps [of 0])
  qed
qed

lemma bitlen_powi:
  assumes "0 < n"
  shows "(2::rat) powi (bitlen n - 1) \<le> of_int n" and "of_int n < (2::rat) powi (bitlen n)"
proof -
  from assms have b: "1 \<le> bitlen n" by (rule bitlen_pos)
  from bitlen_bounds [OF assms] have l: "2 ^ nat (bitlen n - 1) \<le> n" and u: "n < 2 ^ nat (bitlen n)"
    by simp_all
  from l have "(of_int (2 ^ nat (bitlen n - 1)) :: rat) \<le> of_int n" by (simp only: of_int_le_iff)
  then show "(2::rat) powi (bitlen n - 1) \<le> of_int n"
    using b by (simp add: power_int_nonneg_exp)
  from u have "(of_int n :: rat) < of_int (2 ^ nat (bitlen n))" by (simp only: of_int_less_iff)
  then show "of_int n < (2::rat) powi (bitlen n)"
    using b by (simp add: power_int_nonneg_exp)
qed

lemma ilog2_bounds:
  assumes "0 < x"
  shows "2 powi (ilog2 x) \<le> x" and "x < 2 powi (ilog2 x + 1)"
proof -
  obtain p q where pq: "quotient_of x = (p, q)" by (cases "quotient_of x")
  then have q: "0 < q" by (rule quotient_of_denom_pos)
  from pq have x: "x = of_int p / of_int q" by (rule quotient_of_div)
  with assms q have p: "0 < p" by (simp add: zero_less_divide_iff)
  define d where "d = bitlen p - bitlen q"
  have il: "ilog2 x = (if 2 powi d \<le> x then d else d - 1)"
    by (simp add: ilog2_def Let_def pq d_def)
  have qr: "(0::rat) < of_int q" using q by simp
  have "(2::rat) powi (bitlen p - 1) \<le> of_int p" using p by (rule bitlen_powi)
  moreover have "(of_int q :: rat) < 2 powi (bitlen q)" using q by (rule bitlen_powi)
  ultimately have "(2::rat) powi (bitlen p - 1) * of_int q < of_int p * 2 powi (bitlen q)"
    using qr by (intro mult_le_less_imp_less) simp_all
  then have "(2::rat) powi (bitlen p - 1) / 2 powi (bitlen q) < of_int p / of_int q"
    using qr by (simp add: field_simps)
  then have lo: "(2::rat) powi (d - 1) < x"
    unfolding x d_def by (simp add: power_int_diff)
  have "(of_int p :: rat) < 2 powi (bitlen p)" using p by (rule bitlen_powi)
  moreover have "(2::rat) powi (bitlen q - 1) \<le> of_int q" using q by (rule bitlen_powi)
  ultimately have "(of_int p :: rat) * 2 powi (bitlen q - 1) < 2 powi (bitlen p) * of_int q"
    using qr p by (intro mult_less_le_imp_less) simp_all
  then have "(of_int p :: rat) / of_int q < 2 powi (bitlen p) / 2 powi (bitlen q - 1)"
    using qr by (simp add: field_simps)
  moreover have "(2::rat) powi (bitlen p) / 2 powi (bitlen q - 1) = 2 powi (bitlen p - (bitlen q - 1))"
    by (simp add: power_int_diff)
  moreover have "bitlen p - (bitlen q - 1) = d + 1" by (simp add: d_def)
  ultimately have hi: "x < (2::rat) powi (d + 1)"
    unfolding x by simp
  show "2 powi (ilog2 x) \<le> x" using lo by (simp add: il)
  show "x < 2 powi (ilog2 x + 1)" using hi by (simp add: il not_le)
qed

lemma ilog2_less: 
  assumes "0 < x" and "x < 2 powi k"
  shows "ilog2 x < k"
proof (rule ccontr)
  assume "\<not> ilog2 x < k"
  then have "k \<le> ilog2 x" by simp
  then have "(2::rat) powi k \<le> 2 powi (ilog2 x)" by (intro power_int_increasing) simp_all
  with ilog2_bounds(1) [OF assms(1)] assms(2) show False by linarith
qed

lemma round_half_even_error: "\<bar>of_int (round_half_even y) - y\<bar> \<le> 1 / 2"
proof -
  have "of_int \<lfloor>y\<rfloor> \<le> y" "y < of_int \<lfloor>y\<rfloor> + 1" by linarith+
  then show ?thesis
    by (auto simp: round_half_even_def Let_def abs_le_iff)
qed

lemma round_to_grid_error: "\<bar>round_to_grid x - x\<bar> \<le> ulp x / 2"
proof (cases "x = 0")
  case True
  then show ?thesis by (simp add: round_to_grid_def ulp_def)
next
  case False
  have u: "0 < ulp x" by (simp add: ulp_def)
  have "round_to_grid x - x = (of_int (round_half_even (x / ulp x)) - x / ulp x) * ulp x"
    using False u by (simp add: round_to_grid_def field_simps)
  then have "\<bar>round_to_grid x - x\<bar> = \<bar>of_int (round_half_even (x / ulp x)) - x / ulp x\<bar> * ulp x"
    using u by (simp add: abs_mult)
  also have "\<dots> \<le> (1 / 2) * ulp x"
    using u round_half_even_error [of "x / ulp x"] by (intro mult_right_mono) simp_all
  finally show ?thesis by simp
qed

lemma ulp_le:
  assumes "x \<noteq> 0" and "\<bar>x\<bar> < 2 powi k" and "- 1021 \<le> k"
  shows "ulp x \<le> 2 powi (k - 53)"
proof -
  from assms(1) have "0 < \<bar>x\<bar>" by simp
  from ilog2_less [OF this assms(2)] assms(3) have "max (ilog2 \<bar>x\<bar>) (- 1022) - 52 \<le> k - 53" by simp
  then show ?thesis unfolding ulp_def by (intro power_int_increasing) simp_all
qed

lemma round_to_grid_near:
  assumes "\<bar>x\<bar> < 2 powi k" and "- 1021 \<le> k"
  shows "\<bar>round_to_grid x - x\<bar> \<le> 2 powi (k - 54)"
proof (cases "x = 0")
  case True
  then show ?thesis by (simp add: round_to_grid_def)
next
  case False
  have "\<bar>round_to_grid x - x\<bar> \<le> ulp x / 2" by (rule round_to_grid_error)
  also have "\<dots> \<le> 2 powi (k - 53) / 2" using ulp_le [OF False assms] by simp
  also have "\<dots> = 2 powi (k - 54)"
    using power_int_add [of "2::rat" "k - 54" 1] by simp
  finally show ?thesis .
qed

lemma float64_of_rat_Finite:
  assumes "\<bar>round_to_grid x\<bar> < 2 powi 1024"
  shows "float64_of_rat x = Finite (round_to_grid x)"
proof (cases "round_to_grid x = 0")
  case True
  then show ?thesis by (simp add: float64_of_rat_def)
next
  case False
  then have "0 < \<bar>round_to_grid x\<bar>" by simp
  from ilog2_less [OF this assms] show ?thesis
    using False by (simp add: float64_of_rat_def Let_def)
qed

lemma float64_of_rat_small:
  assumes "\<bar>x\<bar> < 256"
  shows "float64_of_rat x = Finite (round_to_grid x)" and "\<bar>round_to_grid x - x\<bar> \<le> 2 powi (- 46)"
proof -
  have "\<bar>x\<bar> < 2 powi 8" using assms by simp
  from round_to_grid_near [OF this] show e: "\<bar>round_to_grid x - x\<bar> \<le> 2 powi (- 46)" by simp
  have "(2::rat) powi (- 46) \<le> 1" by simp
  with e assms have "\<bar>round_to_grid x\<bar> < 1024" by linarith
  then have "\<bar>round_to_grid x\<bar> < 2 powi 10" by simp
  also have "(2::rat) powi 10 \<le> 2 powi 1024" by (intro power_int_increasing) simp_all
  finally show "float64_of_rat x = Finite (round_to_grid x)" by (rule float64_of_rat_Finite)
qed

lemma float_constants:
  "float64_of_rat 0.02 = Finite (5764607523034235 / 288230376151711744)"
  "float64_of_rat 0.01 = Finite (5764607523034235 / 576460752303423488)"
  "float64_of_rat 0.1 = Finite (3602879701896397 / 36028797018963968)"
  by code_simp+

lemma users_values:
  "users =
     [\<lparr>ID = ''Ashish'', Name = ''Ashish'',
       Base = \<lparr>Lat = Finite (2864908607956399 / 70368744177664),
                Lon = Finite (- (2603854640806101 / 35184372088832))\<rparr>\<rparr>,
      \<lparr>ID = ''Saranya'', Name = ''Saranya'',
       Base = \<lparr>Lat = Finite (1198105275243325 / 35184372088832),
                Lon = Finite (- (8320660675920449 / 70368744177664))\<rparr>\<rparr>,
      \<lparr>ID = ''Cookie'', Name = ''Cookie'',
       Base = \<lparr>Lat = Finite (7249022107713221 / 140737488355328),
                Lon = Finite (- (4604480259023595 / 36028797018963968))\<rparr>\<rparr>]"
  by code_simp

lemma users_in_degrees: "u \<in> set users \<Longrightarrow> in_degrees (Base u)"
  by (auto simp: users_values in_degrees_def)

lemma generate_axis:
  assumes b: "\<bar>b\<bar> \<le> 180" and q: "0 \<le> q" "q < 1"
  shows "\<exists>v. float_sub (float_add (Finite b) (float_mul (Finite q) (float64_of_rat 0.02)))
               (float64_of_rat 0.01) = Finite v \<and> \<bar>v - b\<bar> \<le> 1 / 100 + 2 powi (- 44)"
proof -
  define c2 :: rat where "c2 = 5764607523034235 / 288230376151711744"
  define c1 :: rat where "c1 = 5764607523034235 / 576460752303423488"
  define t where "t = round_to_grid (q * c2)"
  define s where "s = round_to_grid (b + t)"
  define v where "v = round_to_grid (s - c1)"
  define e :: rat where "e = 2 powi (- 46)"
  have e: "e = 1 / 70368744177664" by (simp add: e_def)
  have qc: "0 \<le> q * c2" "q * c2 < c2"
    using q by (simp_all add: c2_def)
  then have "\<bar>q * c2\<bar> < 256" by (simp add: c2_def)
  from float64_of_rat_small [OF this]
  have t1: "float64_of_rat (q * c2) = Finite t" and t2: "\<bar>t - q * c2\<bar> \<le> e"
    by (simp_all add: t_def e_def)
  have c2: "c2 \<le> 1" by (simp add: c2_def)
  have c1: "0 \<le> c1" "c1 \<le> 1 / 100 + e" "c2 - c1 \<le> 1 / 100 + e" by (simp_all add: c1_def c2_def e)
  have e1: "e \<le> 1" by (simp add: e)
  from t2 qc b c2 e1 have "\<bar>b + t\<bar> < 256" by linarith
  from float64_of_rat_small [OF this]
  have s1: "float64_of_rat (b + t) = Finite s" and s2: "\<bar>s - (b + t)\<bar> \<le> e"
    by (simp_all add: s_def e_def)
  from s2 t2 qc b c1 c2 e1 have "\<bar>s - c1\<bar> < 256" by linarith
  from float64_of_rat_small [OF this]
  have v1: "float64_of_rat (s - c1) = Finite v" and v2: "\<bar>v - (s - c1)\<bar> \<le> e"
    by (simp_all add: v_def e_def)
  have "float_sub (float_add (Finite b) (float_mul (Finite q) (float64_of_rat 0.02)))
          (float64_of_rat 0.01) = Finite v"
    unfolding float_constants float_sub_def
    by (simp add: c2_def [symmetric] c1_def [symmetric] t1 s1 v1)
  moreover have "\<bar>v - b\<bar> \<le> 1 / 100 + 4 * e"
    using v2 s2 t2 qc c1 by linarith
  then have "\<bar>v - b\<bar> \<le> 1 / 100 + 2 powi (- 44)" by (simp add: e)
  ultimately show ?thesis by blast
qed

lemma generateCoordinate_axes:
  assumes "in_degrees base" and "unit_interval r1" and "unit_interval r2"
  shows "near_base (Lat base) (Lat (generateCoordinate base r1 r2))"
    and "near_base (Lon base) (Lon (generateCoordinate base r1 r2))"
proof -
  from assms(1) obtain b1 b2 where b: "Lat base = Finite b1" "\<bar>b1\<bar> \<le> 180" "Lon base = Finite b2" "\<bar>b2\<bar> \<le> 180"
    by (auto simp: in_degrees_def split: float64.splits)
  from assms(2) obtain q1 where q1: "r1 = Finite q1" "0 \<le> q1" "q1 < 1"
    by (auto simp: unit_interval_def split: float64.splits)
  from assms(3) obtain q2 where q2: "r2 = Finite q2" "0 \<le> q2" "q2 < 1"
    by (auto simp: unit_interval_def split: float64.splits)
  from generate_axis [OF b(2) q1(2,3)] b(1) q1(1)
  show "near_base (Lat base) (Lat (generateCoordinate base r1 r2))"
    by (auto simp: generateCoordinate_def near_base_def)
  from generate_axis [OF b(4) q2(2,3)] b(3) q2(1)
  show "near_base (Lon base) (Lon (generateCoordinate base r1 r2))"
    by (auto simp: generateCoordinate_def near_base_def)
qed

lemma near_base_finite: "near_base b v \<Longrightarrow> is_finite v"
  by (auto simp: near_base_def split: float64.splits)

section \<open>The simulated position\<close>

text \<open>
  C1, as the code has it. For every roster user and every pair of samples from
  \<open>[0, 1)\<close>, the generated latitude and longitude are finite and differ from the user's
  base by at most 0.01 plus \<open>2^-44\<close> degrees: every operation of
  \<^verbatim>\<open>base + sample*0.02 - 0.01\<close> rounds to \<^verbatim>\<open>float64\<close>. The position is a function of the
  base and the two samples alone, so nothing accumulates from tick to tick.
\<close>

theorem generateCoordinate_near_base:
  "\<forall>user \<in> set users. \<forall>r1 r2. unit_interval r1 \<and> unit_interval r2 \<longrightarrow>
     near_base (Lat (Base user)) (Lat (generateCoordinate (Base user) r1 r2)) \<and>
     near_base (Lon (Base user)) (Lon (generateCoordinate (Base user) r1 r2))"
  using generateCoordinate_axes users_in_degrees by blast

theorem generateCoordinate_near_base_witness:
  "hd users \<in> set users \<and> unit_interval (Finite (1 / 4)) \<and> unit_interval (Finite 0) \<and>
   near_base (Lat (Base (hd users))) (Lat (generateCoordinate (Base (hd users)) (Finite (1 / 4)) (Finite 0))) \<and>
   near_base (Lon (Base (hd users))) (Lon (generateCoordinate (Base (hd users)) (Finite (1 / 4)) (Finite 0)))"
proof -
  have m: "hd users \<in> set users" by (simp add: users_def)
  have u: "unit_interval (Finite (1 / 4)) \<and> unit_interval (Finite 0)" by (simp add: unit_interval_def)
  from generateCoordinate_near_base m u show ?thesis by blast
qed

text \<open>
  C1 as stated fails at the sample 0 for the first roster user: the longitude
  \<^verbatim>\<open>-74.0060 + 0*0.02 - 0.01\<close> rounds to a value more than 0.01 below the base, both as
  exact numbers and when the difference is computed and compared in \<^verbatim>\<open>float64\<close>.
\<close>

theorem generateCoordinate_exceeds:
  "Lon (Base (hd users)) = Finite (- (2603854640806101 / 35184372088832)) \<and>
   unit_interval (Finite 0) \<and>
   Lon (generateCoordinate (Base (hd users)) (Finite 0) (Finite 0))
     = Finite (- (5208412969053979 / 70368744177664)) \<and>
   (1 / 100 :: rat) < \<bar>- (5208412969053979 / 70368744177664) - (- (2603854640806101 / 35184372088832))\<bar> \<and>
   float_less (float64_of_rat 0.01)
     (float_sub (Lon (Base (hd users))) (Lon (generateCoordinate (Base (hd users)) (Finite 0) (Finite 0))))"
proof -
  have z: "float64_of_rat 0 = Finite 0" by (simp add: float64_of_rat_def round_to_grid_def)
  have a: "float64_of_rat (- (2603854640806101 / 35184372088832)) = Finite (- (2603854640806101 / 35184372088832))"
    by code_simp
  have s: "float64_of_rat (- (42667319042490193019 / 576460752303423488))
      = Finite (- (5208412969053979 / 70368744177664))"
    by code_simp
  have d: "float64_of_rat (703687441777 / 70368744177664) = Finite (703687441777 / 70368744177664)"
    by code_simp
  have g: "Lon (generateCoordinate (Base (hd users)) (Finite 0) (Finite 0))
     = Finite (- (5208412969053979 / 70368744177664))"
    unfolding generateCoordinate_def float_constants float_sub_def
    by (simp add: users_values z a s)
  show ?thesis
    unfolding g float_constants float_sub_def
    by (simp add: users_values unit_interval_def d)
qed
section \<open>The query endpoint\<close>

lemma digit_nonneg: "digit c = Some d \<Longrightarrow> 0 \<le> d"
  by (auto simp: digit_def split: if_splits)

lemma digits_value_all: "digits_value ds acc = Some n \<Longrightarrow> list_all (\<lambda>c. digit c \<noteq> None) ds"
  by (induction ds arbitrary: acc) (auto split: option.splits)

lemma digits_value_nonneg: "digits_value ds acc = Some n \<Longrightarrow> 0 \<le> acc \<Longrightarrow> 0 \<le> n"
proof (induction ds arbitrary: acc)
  case Nil
  then show ?case by simp
next
  case (Cons c cs)
  then obtain d where d: "digit c = Some d" and rest: "digits_value cs (acc * 10 + d) = Some n"
    by (auto split: option.splits)
  from d have "0 \<le> d" by (rule digit_nonneg)
  with Cons.prems(2) have "0 \<le> acc * 10 + d" by simp
  with Cons.IH rest show ?case by blast
qed

lemma digits_value_positive:
  "digits_value ds acc = Some n \<Longrightarrow> 0 < n \<Longrightarrow> acc = 0 \<Longrightarrow>
     list_ex (\<lambda>c. digit c \<noteq> None \<and> digit c \<noteq> Some 0) ds"
proof (induction ds arbitrary: acc)
  case Nil
  then show ?case by simp
next
  case (Cons c cs)
  then obtain d where d: "digit c = Some d" and rest: "digits_value cs (acc * 10 + d) = Some n"
    by (auto split: option.splits)
  show ?case
  proof (cases "d = 0")
    case True
    with rest Cons.prems have "digits_value cs 0 = Some n" by simp
    with Cons.IH Cons.prems(2) have "list_ex (\<lambda>c. digit c \<noteq> None \<and> digit c \<noteq> Some 0) cs" by blast
    then show ?thesis by simp
  next
    case False
    with d show ?thesis by simp
  qed
qed

lemma Atoi_positive: "Atoi s = Inr n \<Longrightarrow> 0 < n \<Longrightarrow> positive_decimal s"
proof -
  assume a: "Atoi s = Inr n" and pos: "0 < n"
  define ds where "ds = (if s \<noteq> [] \<and> (hd s = CHR ''-'' \<or> hd s = CHR ''+'') then tl s else s)"
  from a have ne: "ds \<noteq> []"
    by (auto simp: Atoi_def Let_def ds_def split: if_splits)
  from a ne obtain m where m: "digits_value ds 0 = Some m"
    by (auto simp: Atoi_def Let_def ds_def split: if_splits option.splits)
  have m0: "0 \<le> m" using digits_value_nonneg [OF m] by simp
  have notneg: "\<not> (s \<noteq> [] \<and> hd s = CHR ''-'')"
  proof
    assume "s \<noteq> [] \<and> hd s = CHR ''-''"
    with a m have "n = - m"
      by (auto simp: Atoi_def Let_def ds_def split: if_splits)
    with m0 pos show False by simp
  qed
  with a m have "n = m"
    by (auto simp: Atoi_def Let_def ds_def split: if_splits)
  with pos have "0 < m" by simp
  from notneg have ds': "ds = (if s \<noteq> [] \<and> hd s = CHR ''+'' then tl s else s)"
    by (auto simp: ds_def)
  from ne digits_value_all [OF m] digits_value_positive [OF m \<open>0 < m\<close>] ds'
  show ?thesis by (simp add: positive_decimal_def Let_def)
qed

lemma limitNum_default: "\<not> positive_decimal s \<Longrightarrow> limitNum s = 50"
  using Atoi_positive [of s] by (auto simp: limitNum_def split: sum.splits)

lemma collect_Slice:
  "collect rows (Slice acc) =
     Slice (acc @ map (\<lambda>r::StoredRow. \<lparr>UserID = user_id r, SessionID = the (session_id r), CoordLat = lat r,
                            CoordLon = lon r, Timestamp = timestamp r\<rparr>)
                    (filter (\<lambda>r. session_id r \<noteq> None) rows))"
  by (induction rows arbitrary: acc) (auto simp: Scan_def split: option.splits)

lemma sorted_wrt_desc: "sorted_wrt (\<lambda>a b. timestamp b \<le> timestamp a) (order_by_timestamp_desc rows)"
proof -
  have "sorted (map timestamp (sort_key timestamp (rev rows)))" by (rule sorted_sort_key)
  then have "sorted_wrt (\<lambda>a b. timestamp a \<le> timestamp b) (sort_key timestamp (rev rows))"
    by (simp add: sorted_map)
  then show ?thesis
    by (simp add: order_by_timestamp_desc_def sorted_wrt_rev)
qed

lemma set_order_by: "set (order_by_timestamp_desc rows) = set rows"
  by (simp add: order_by_timestamp_desc_def)

lemma sorted_wrt_sql_limit: "sorted_wrt P xs \<Longrightarrow> sorted_wrt P (sql_limit n xs)"
  by (simp add: sql_limit_def sorted_wrt_take)

lemma set_sql_limit: "set (sql_limit n xs) \<subseteq> set xs"
  by (auto simp: sql_limit_def dest: in_set_takeD)

lemma length_sql_limit: "0 \<le> n \<Longrightarrow> int (length (sql_limit n xs)) \<le> n"
  by (simp add: sql_limit_def)

lemma limitNum_pos: "0 < limitNum s"
  by (auto simp: limitNum_def split: sum.splits)

text \<open>
  C4, as the code has it. When \<^verbatim>\<open>GET /events\<close> answers with a collection, it holds at
  most \<open>limit\<close> events, where \<open>limit\<close> is 50 when the parameter is absent; when
  \<^verbatim>\<open>user_id\<close> is present and not empty every event has that user id; and the events are
  in descending order of their timestamp text.
\<close>

theorem getEvents_limit_filter_order:
  assumes "getEvents_events fault db r = Inr events"
  shows "\<exists>es. events = Slice es
           \<and> int (length es) \<le> limitNum (Get (req_query r) ''limit'')
           \<and> (map_of (req_query r) ''limit'' = None \<longrightarrow> limitNum (Get (req_query r) ''limit'') = 50)
           \<and> (\<forall>m. Atoi (Get (req_query r) ''limit'') = Inr m \<and> 0 < m \<longrightarrow>
                  limitNum (Get (req_query r) ''limit'') = m)
           \<and> (\<forall>u. map_of (req_query r) ''user_id'' = Some u \<and> u \<noteq> [] \<longrightarrow> (\<forall>e \<in> set es. UserID e = u))
           \<and> sorted_wrt (\<lambda>a b. Timestamp b \<le> Timestamp a) es"
proof -
  define user where "user = (if Get (req_query r) ''user_id'' \<noteq> [] then Some (Get (req_query r) ''user_id'') else None)"
  define n where "n = limitNum (Get (req_query r) ''limit'')"
  define matching where "matching = filter (\<lambda>r. case user of None \<Rightarrow> True | Some u \<Rightarrow> user_id r = u) (coordinates db)"
  define rows where "rows = sql_limit n (order_by_timestamp_desc matching)"
  define ev where "ev = (\<lambda>r::StoredRow. \<lparr>UserID = user_id r, SessionID = the (session_id r), CoordLat = lat r,
                            CoordLon = lon r, Timestamp = timestamp r\<rparr>)"
  define es where "es = map ev (filter (\<lambda>r. session_id r \<noteq> None) rows)"
  have q: "getEvents_events fault db r =
      (case db_Query fault db user n of Inl err \<Rightarrow> Inl err | Inr rows \<Rightarrow> Inr (collect rows (Slice [])))"
    by (simp add: getEvents_events_def Let_def user_def n_def)
  have "fault = None"
  proof (cases fault)
    case None
    then show ?thesis .
  next
    case (Some err)
    with q have "getEvents_events fault db r = Inl err" by (simp add: db_Query_def)
    with assms show ?thesis by simp
  qed
  then have "db_Query fault db user n = Inr rows"
    by (simp add: db_Query_def rows_def matching_def)
  with q assms have "events = collect rows (Slice [])" by simp
  then have ev: "events = Slice es"
    by (simp add: collect_Slice es_def ev_def)
  have npos: "0 \<le> n" using limitNum_pos [of "Get (req_query r) ''limit''"] by (simp add: n_def)
  have "length es \<le> length rows" by (simp add: es_def)
  moreover have "int (length rows) \<le> n" unfolding rows_def by (rule length_sql_limit [OF npos])
  ultimately have len: "int (length es) \<le> n" by linarith
  have dflt: "map_of (req_query r) ''limit'' = None \<longrightarrow> n = 50"
    by (simp add: n_def Get_def limitNum_def)
  have given: "\<forall>m. Atoi (Get (req_query r) ''limit'') = Inr m \<and> 0 < m \<longrightarrow> n = m"
  proof (intro allI impI)
    fix m assume a: "Atoi (Get (req_query r) ''limit'') = Inr m \<and> 0 < m"
    have "Atoi [] = Inl ErrSyntax" by (simp add: Atoi_def)
    with a have "Get (req_query r) ''limit'' \<noteq> []" by auto
    with a show "n = m" by (simp add: n_def limitNum_def)
  qed
  have "set rows \<subseteq> set (order_by_timestamp_desc matching)"
    unfolding rows_def by (rule set_sql_limit)
  then have sub: "set rows \<subseteq> set matching" by (simp add: set_order_by)
  have filt: "\<forall>u. map_of (req_query r) ''user_id'' = Some u \<and> u \<noteq> [] \<longrightarrow> (\<forall>e \<in> set es. UserID e = u)"
  proof (intro allI impI ballI)
    fix u e assume u: "map_of (req_query r) ''user_id'' = Some u \<and> u \<noteq> []" and e: "e \<in> set es"
    from u have us: "user = Some u" by (simp add: user_def Get_def)
    from e obtain row where row: "row \<in> set rows" "e = ev row" by (auto simp: es_def)
    from row(1) sub have "row \<in> set matching" by blast
    with us have "user_id row = u" by (simp add: matching_def)
    with row(2) show "UserID e = u" by (simp add: ev_def)
  qed
  have "sorted_wrt (\<lambda>a b. timestamp b \<le> timestamp a) rows"
    unfolding rows_def by (intro sorted_wrt_sql_limit sorted_wrt_desc)
  then have "sorted_wrt (\<lambda>a b. timestamp b \<le> timestamp a) (filter (\<lambda>r. session_id r \<noteq> None) rows)"
    by (rule sorted_wrt_filter)
  then have srt: "sorted_wrt (\<lambda>a b. Timestamp b \<le> Timestamp a) es"
    by (simp add: es_def sorted_wrt_map ev_def)
  show ?thesis
    apply (rule exI [of _ es])
    using ev len dflt given filt srt unfolding n_def
    apply (intro conjI)
         apply assumption+
    done
qed

theorem getEvents_limit_filter_order_witness:
  "getEvents_events None sample_db
     \<lparr>req_method = ''GET'', req_query = [(''user_id'', ''u1''), (''limit'', ''2'')], req_body = None\<rparr>
     = Inr (Slice
         [\<lparr>UserID = ''u1'', SessionID = ''s1'', CoordLat = Finite 10, CoordLon = Finite 20,
           Timestamp = ''2024-01-01T00:00:05Z''\<rparr>,
          \<lparr>UserID = ''u1'', SessionID = ''s1'', CoordLat = Finite 10, CoordLon = Finite 20,
           Timestamp = ''2024-01-01T00:00:00Z''\<rparr>]) \<and>
   limitNum ''2'' = 2 \<and>
   (\<exists>es. getEvents_events None sample_db
           \<lparr>req_method = ''GET'', req_query = [(''user_id'', ''u1''), (''limit'', ''2'')], req_body = None\<rparr>
           = Inr (Slice es) \<and>
         int (length es) \<le> 2 \<and> list_all (\<lambda>e. UserID e = ''u1'') es \<and>
         sorted_wrt (\<lambda>a b. Timestamp b \<le> Timestamp a) es)"
proof -
  let ?r = "\<lparr>req_method = ''GET'', req_query = [(''user_id'', ''u1''), (''limit'', ''2'')], req_body = None\<rparr>"
  have h: "getEvents_events None sample_db ?r
     = Inr (Slice
         [\<lparr>UserID = ''u1'', SessionID = ''s1'', CoordLat = Finite 10, CoordLon = Finite 20,
           Timestamp = ''2024-01-01T00:00:05Z''\<rparr>,
          \<lparr>UserID = ''u1'', SessionID = ''s1'', CoordLat = Finite 10, CoordLon = Finite 20,
           Timestamp = ''2024-01-01T00:00:00Z''\<rparr>])"
    by code_simp
  have l: "limitNum ''2'' = 2" by code_simp
  have g: "Get (req_query ?r) ''limit'' = ''2''" "map_of (req_query ?r) ''user_id'' = Some ''u1''"
    by (simp_all add: Get_def)
  from getEvents_limit_filter_order [OF h] g l h show ?thesis
    by (auto simp: list_all_iff)
qed

text \<open>
  C4 as stated fails in two places. When \<^verbatim>\<open>user_id\<close> is present with an empty value the
  handler adds no \<^verbatim>\<open>WHERE\<close> condition, and events of other users are returned. And the
  order is that of the timestamp text, not of the instants: of two events that the
  ingress has taken and the sink has stored, the one stamped \<^verbatim>\<open>10:00:00+09:00\<close> is returned
  before the one stamped \<^verbatim>\<open>02:00:00Z\<close>, which is an hour more recent.
\<close>

theorem getEvents_unfiltered_and_text_order:
  "map_of (req_query \<lparr>req_method = ''GET'', req_query = [(''user_id'', [])], req_body = None\<rparr>)
     ''user_id'' = Some [] \<and>
   getEvents_events None sample_db
     \<lparr>req_method = ''GET'', req_query = [(''user_id'', [])], req_body = None\<rparr>
     = Inr (Slice
         [\<lparr>UserID = ''u2'', SessionID = ''s1'', CoordLat = Finite 30, CoordLon = Finite 40,
           Timestamp = ''2024-01-01T00:00:10Z''\<rparr>,
          \<lparr>UserID = ''u1'', SessionID = ''s1'', CoordLat = Finite 10, CoordLon = Finite 20,
           Timestamp = ''2024-01-01T00:00:05Z''\<rparr>,
          \<lparr>UserID = ''u1'', SessionID = ''s1'', CoordLat = Finite 10, CoordLon = Finite 20,
           Timestamp = ''2024-01-01T00:00:00Z''\<rparr>]) \<and>
   ''u2'' \<noteq> ([] :: string) \<and>
   sink_db (consume_loop
      [\<lparr>signal = False,
        poll = Some (Message (Some (encoded (sample_event\<lparr>Timestamp := ''2024-01-01T02:00:00Z''\<rparr>)))),
        exec_fault = None\<rparr>,
       \<lparr>signal = False,
        poll = Some (Message (Some (encoded (sample_event\<lparr>Timestamp := ''2024-01-01T10:00:00+09:00''\<rparr>)))),
        exec_fault = None\<rparr>]
      \<lparr>sink_db = \<lparr>coordinates = [], seq = 0\<rparr>, sink_log = []\<rparr>) = offsets_db \<and>
   getEvents_events None offsets_db \<lparr>req_method = ''GET'', req_query = [], req_body = None\<rparr>
     = Inr (Slice
         [\<lparr>UserID = ''u1'', SessionID = ''s1'', CoordLat = Finite 10, CoordLon = Finite 20,
           Timestamp = ''2024-01-01T10:00:00+09:00''\<rparr>,
          \<lparr>UserID = ''u1'', SessionID = ''s1'', CoordLat = Finite 10, CoordLon = Finite 20,
           Timestamp = ''2024-01-01T02:00:00Z''\<rparr>]) \<and>
   instant ''2024-01-01T10:00:00+09:00'' = Some 1704070800 \<and>
   instant ''2024-01-01T02:00:00Z'' = Some 1704074400 \<and>
   (1704070800 :: int) < 1704074400"
  by code_simp

text \<open>
  C8. When no stored row passes the filter of the request and the engine answers the
  query, the response of \<^verbatim>\<open>GET /events\<close> is status 200 with the empty JSON array, which is
  neither \<^verbatim>\<open>null\<close> nor an error.
\<close>

theorem getEvents_no_match:
  assumes "\<forall>row \<in> set (coordinates db). \<not> matches_filters r row"
  shows "getEvents None db r = \<lparr>status = 200, body = JsonBody (JArray [])\<rparr>"
proof -
  define user where "user = (if Get (req_query r) ''user_id'' \<noteq> [] then Some (Get (req_query r) ''user_id'') else None)"
  from assms have "filter (\<lambda>r. case user of None \<Rightarrow> True | Some u \<Rightarrow> user_id r = u) (coordinates db) = []"
    by (auto simp: matches_filters_def user_def filter_empty_conv)
  then have "db_Query None db user (limitNum (Get (req_query r) ''limit'')) = Inr []"
    by (simp add: db_Query_def order_by_timestamp_desc_def sql_limit_def)
  then have "getEvents_events None db r = Inr (Slice [])"
    by (simp add: getEvents_events_def Let_def user_def)
  then show ?thesis
    by (simp add: getEvents_def Encode_def)
qed

theorem getEvents_no_match_witness:
  "list_all (\<lambda>row. \<not> matches_filters
       \<lparr>req_method = ''GET'', req_query = [(''user_id'', ''u9'')], req_body = None\<rparr> row)
     (coordinates sample_db) \<and>
   getEvents None sample_db \<lparr>req_method = ''GET'', req_query = [(''user_id'', ''u9'')], req_body = None\<rparr>
     = \<lparr>status = 200, body = JsonBody (JArray [])\<rparr> \<and>
   JArray [] \<noteq> JNull"
proof -
  let ?r = "\<lparr>req_method = ''GET'', req_query = [(''user_id'', ''u9'')], req_body = None\<rparr>"
  have h: "\<forall>row \<in> set (coordinates sample_db). \<not> matches_filters ?r row"
    by (simp add: sample_db_def matches_filters_def Get_def)
  from getEvents_no_match [OF h] h show ?thesis
    by (simp add: list_all_iff)
qed








text \<open>
  C10. When \<^verbatim>\<open>limit\<close> is present and is not a decimal numeral of a positive integer
  (digits, not all zero, after an optional plus sign, as \<^verbatim>\<open>strconv.Atoi\<close> reads them),
  the limit applied is the default 50, the request is answered with status 200 when the
  engine answers, and the response is that of the same request without \<^verbatim>\<open>limit\<close>.
\<close>

theorem getEvents_bad_limit:
  assumes "map_of (req_query r) ''limit'' = Some s" and "\<not> positive_decimal s"
  shows "limitNum (Get (req_query r) ''limit'') = 50
       \<and> status (getEvents None db r) = 200
       \<and> (\<forall>r'. map_of (req_query r') ''limit'' = None
                \<and> Get (req_query r') ''user_id'' = Get (req_query r) ''user_id''
             \<longrightarrow> getEvents fault db r = getEvents fault db r')"
proof -
  from assms have l: "limitNum (Get (req_query r) ''limit'') = 50"
    by (simp add: Get_def limitNum_default)
  have st: "status (getEvents None db r) = 200"
    by (simp add: getEvents_def getEvents_events_def db_Query_def Let_def split: sum.splits)
  have "getEvents fault db r = getEvents fault db r'"
    if "map_of (req_query r') ''limit'' = None \<and> Get (req_query r') ''user_id'' = Get (req_query r) ''user_id''" for r'
  proof -
    from that have "limitNum (Get (req_query r') ''limit'') = 50" by (simp add: Get_def limitNum_def)
    with l that show ?thesis by (simp add: getEvents_def getEvents_events_def Let_def)
  qed
  with l st show ?thesis by blast
qed
theorem getEvents_bad_limit_witness:
  "map_of [(''limit'', ''-5'')] ''limit'' = Some ''-5'' \<and> \<not> positive_decimal ''-5'' \<and>
   \<not> positive_decimal ''0'' \<and> \<not> positive_decimal ''abc'' \<and>
   limitNum (Get [(''limit'', ''-5'')] ''limit'') = 50 \<and>
   status (getEvents None sample_db \<lparr>req_method = ''GET'', req_query = [(''limit'', ''-5'')], req_body = None\<rparr>) = 200 \<and>
   getEvents None sample_db \<lparr>req_method = ''GET'', req_query = [(''limit'', ''-5'')], req_body = None\<rparr>
     = getEvents None sample_db \<lparr>req_method = ''GET'', req_query = [], req_body = None\<rparr>"
proof -
  let ?r = "\<lparr>req_method = ''GET'', req_query = [(''limit'', ''-5'')], req_body = None\<rparr>"
  let ?r' = "\<lparr>req_method = ''GET'', req_query = [], req_body = None\<rparr>"
  have m: "map_of (req_query ?r) ''limit'' = Some ''-5''" by simp
  have p: "\<not> positive_decimal ''-5''" "\<not> positive_decimal ''0''" "\<not> positive_decimal ''abc''"
    by code_simp+
  have a: "map_of (req_query ?r') ''limit'' = None \<and> Get (req_query ?r') ''user_id'' = Get (req_query ?r) ''user_id''"
    by (simp add: Get_def)
  from getEvents_bad_limit [OF m p(1), of sample_db None] a m p show ?thesis
    by auto
qed

section \<open>From the generator to the table\<close>

lemma producer_Marshal_finite:
  "is_finite (CoordLat e) \<Longrightarrow> is_finite (CoordLon e) \<Longrightarrow> producer_Marshal e = Inr (encoded e)"
  by (simp add: producer_Marshal_def marshal_float_def encoded_def)

lemma other_keys:
  "\<not> key_matches ''session_id'' ''user_id''"
  "\<not> key_matches ''lat'' ''user_id''" "\<not> key_matches ''lat'' ''session_id''"
  "\<not> key_matches ''lon'' ''user_id''" "\<not> key_matches ''lon'' ''session_id''"
  "\<not> key_matches ''lon'' ''lat''"
  "\<not> key_matches ''timestamp'' ''user_id''" "\<not> key_matches ''timestamp'' ''session_id''"
  "\<not> key_matches ''timestamp'' ''lat''" "\<not> key_matches ''timestamp'' ''lon''"
  by code_simp+

lemma key_matches_refl: "key_matches k k"
  by (simp add: key_matches_def)

lemma Unmarshal_encoded:
  assumes "well_formed e"
  shows "Unmarshal (Some (encoded e)) zero_event = Inr e"
proof -
  from assms have s: "coerce_utf8 (UserID e) = UserID e" "coerce_utf8 (SessionID e) = SessionID e"
    "coerce_utf8 (Timestamp e) = Timestamp e" and f: "is_finite (CoordLat e)" "is_finite (CoordLon e)"
    by (simp_all add: well_formed_def)
  have "Unmarshal (Some (encoded e)) zero_event =
      Inr \<lparr>UserID = UserID e, SessionID = SessionID e, CoordLat = CoordLat e, CoordLon = CoordLon e,
           Timestamp = Timestamp e\<rparr>"
    by (simp add: Unmarshal_def encoded_def decode_member_def other_keys key_matches_refl
        decode_string_def decode_float_def marshal_string_def s f zero_event_def)
  then show ?thesis by simp
qed

text \<open>
  C2. A well-formed event (valid UTF-8 strings, finite coordinates) that the producer
  serialises and the sink reads from the message, deserialises and inserts, yields one new
  row whose user id, session id, latitude, longitude and timestamp are those of the event;
  the coordinates come back as the same \<^verbatim>\<open>float64\<close> values.
\<close>

theorem publish_consume_roundtrip:
  assumes "well_formed e"
  shows "\<exists>data row.
           producer_Marshal e = Inr data \<and>
           Unmarshal (Some data) zero_event = Inr e \<and>
           consume_iteration \<lparr>signal = False, poll = Some (Message (Some data)), exec_fault = None\<rparr> s
             = (True, \<lparr>sink_db = \<lparr>coordinates = coordinates (sink_db s) @ [row],
                                   seq = Suc (seq (sink_db s))\<rparr>,
                        sink_log = sink_log s @ [LogStored e]\<rparr>) \<and>
           user_id row = UserID e \<and> session_id row = Some (SessionID e) \<and>
           lat row = CoordLat e \<and> lon row = CoordLon e \<and> timestamp row = Timestamp e"
proof -
  from assms have f: "is_finite (CoordLat e)" "is_finite (CoordLon e)"
    by (simp_all add: well_formed_def)
  then have n: "CoordLat e \<noteq> NaN" "CoordLon e \<noteq> NaN" by auto
  have m: "producer_Marshal e = Inr (encoded e)" using f by (rule producer_Marshal_finite)
  have u: "Unmarshal (Some (encoded e)) zero_event = Inr e" using assms by (rule Unmarshal_encoded)
  have c: "consume_iteration \<lparr>signal = False, poll = Some (Message (Some (encoded e))), exec_fault = None\<rparr> s
      = (True, \<lparr>sink_db = \<lparr>coordinates = coordinates (sink_db s) @ [row_of_event (Suc (seq (sink_db s))) e],
                            seq = Suc (seq (sink_db s))\<rparr>,
                 sink_log = sink_log s @ [LogStored e]\<rparr>)"
    by (simp add: consume_iteration_def u stmt_Exec_def n)
  show ?thesis
    apply (rule exI [of _ "encoded e"])
    apply (rule exI [of _ "row_of_event (Suc (seq (sink_db s))) e"])
    using m u c by (simp add: row_of_event_def)
qed

theorem publish_consume_roundtrip_witness:
  "well_formed sample_event \<and>
   (\<exists>data row.
      producer_Marshal sample_event = Inr data \<and>
      Unmarshal (Some data) zero_event = Inr sample_event \<and>
      consume_iteration \<lparr>signal = False, poll = Some (Message (Some data)), exec_fault = None\<rparr> sample_sink
        = (True, \<lparr>sink_db = \<lparr>coordinates = coordinates (sink_db sample_sink) @ [row],
                              seq = Suc (seq (sink_db sample_sink))\<rparr>,
                   sink_log = sink_log sample_sink @ [LogStored sample_event]\<rparr>) \<and>
      user_id row = ''u1'' \<and> session_id row = Some ''s1'' \<and>
      lat row = Finite 10 \<and> lon row = Finite 20 \<and> timestamp row = ''2024-01-01T00:00:00Z'')"
proof -
  have w: "well_formed sample_event" by code_simp
  from publish_consume_roundtrip [OF w, of sample_sink] w show ?thesis
    by (simp add: sample_event_def)
qed

section \<open>Manual ingress\<close>

lemma decode_member_finite:
  assumes "decode_member k v e = Inr e'" and "is_finite (CoordLat e)" and "is_finite (CoordLon e)"
  shows "is_finite (CoordLat e') \<and> is_finite (CoordLon e')"
  using assms
  by (auto simp: decode_member_def decode_string_def decode_float_def
      split: if_splits sum.splits json.splits)

lemma decode_members_finite:
  "decode_members kvs e = Inr e' \<Longrightarrow> is_finite (CoordLat e) \<Longrightarrow> is_finite (CoordLon e)
     \<Longrightarrow> is_finite (CoordLat e') \<and> is_finite (CoordLon e')"
proof (induction kvs arbitrary: e)
  case Nil
  then show ?case by simp
next
  case (Cons kv kvs)
  obtain k v where kv: "kv = (k, v)" by (cases kv)
  from Cons.prems(1) kv obtain e1 where e1: "decode_member k v e = Inr e1"
    and rest: "decode_members kvs e1 = Inr e'"
    by (auto split: sum.splits)
  from decode_member_finite [OF e1 Cons.prems(2,3)] Cons.IH [OF rest] show ?case by blast
qed

lemma Unmarshal_finite:
  assumes "Unmarshal b zero_event = Inr e"
  shows "is_finite (CoordLat e) \<and> is_finite (CoordLon e)"
proof -
  have z: "is_finite (CoordLat zero_event)" "is_finite (CoordLon zero_event)"
    by (simp_all add: zero_event_def)
  from assms show ?thesis
    using decode_members_finite [OF _ z] z
    by (auto simp: Unmarshal_def split: option.splits json.splits)
qed

lemma stamped_coordinates:
  "CoordLat (stamped env e) = CoordLat e" "CoordLon (stamped env e) = CoordLon e"
  "UserID (stamped env e) = UserID e"
  by (simp_all add: stamped_def)

lemma publish_cases:
  "(\<forall>err. producer_Marshal (stamped env e) = Inl err \<longrightarrow>
      publish env e cs = (http_Error ''Error serializing event'' 500, cs)) \<and>
   (\<forall>data. producer_Marshal (stamped env e) = Inr data \<longrightarrow>
      snd (publish env e cs)
        = cs @ [(\<lparr>Topic = ''coordinates'', Key = UserID e, Value = Some data\<rparr>, produce_fault env)] \<and>
      (\<forall>err. produce_fault env = Some err \<longrightarrow>
         fst (publish env e cs) = http_Error ''Error producing message'' 500) \<and>
      (produce_fault env = None \<longrightarrow>
         fst (publish env e cs) = \<lparr>status = 200, body = TextBody ''ok''\<rparr>))"
  by (auto simp: publish_def stamped_def Let_def Produce_def split: sum.splits option.splits)

lemma publish_report: "publish (env\<lparr>report := d\<rparr>) e cs = publish env e cs"
  by (auto simp: publish_def Let_def split: sum.splits option.splits)

text \<open>
  What follows the first value of the body is not read and does not change the answer.
\<close>

lemma produce_handler_first_value:
  "produce_handler env (r\<lparr>post_trailing := t\<rparr>) cs = produce_handler env r cs"
  by (simp add: produce_handler_def)

text \<open>
  C3, as the code has it. \<^verbatim>\<open>POST /produce\<close> answers a method other than POST with 405. It
  answers 400, without a call of \<^verbatim>\<open>Produce\<close>, when the decoder rejects the body, which it
  does whenever the body starts with no JSON value or with one that is neither an object
  nor \<^verbatim>\<open>null\<close>. A body that is a single JSON document and decodes is serialised, which
  cannot fail for a decoded event, and handed as one message to \<^verbatim>\<open>Produce\<close>, with the
  timestamp set to the clock when the event had none: a failing \<^verbatim>\<open>Produce\<close> is answered
  with 500, anything else with 200 and body \<^verbatim>\<open>ok\<close>, whatever the delivery report for the
  message is. The handler's answer to a failing serialisation is 500.
\<close>

theorem produce_handler_responses:
  "(post_method r \<noteq> ''POST'' \<longrightarrow> produce_handler env r cs = (http_Error ''POST only'' 405, cs)) \<and>
   (post_method r = ''POST'' \<longrightarrow>
      (\<forall>err. Unmarshal (post_body r) zero_event = Inl err \<longrightarrow>
         produce_handler env r cs = (http_Error ''Invalid JSON'' 400, cs)) \<and>
      (\<not> event_document (post_body r) \<and> post_body r \<noteq> Some JNull \<longrightarrow>
         produce_handler env r cs = (http_Error ''Invalid JSON'' 400, cs)) \<and>
      (\<forall>decoded. Unmarshal (post_body r) zero_event = Inr decoded \<and> \<not> post_trailing r \<longrightarrow>
         (\<exists>data. producer_Marshal (stamped env decoded) = Inr data \<and>
            snd (produce_handler env r cs)
              = cs @ [(\<lparr>Topic = ''coordinates'', Key = UserID decoded, Value = Some data\<rparr>,
                       produce_fault env)]) \<and>
         (\<forall>err. produce_fault env = Some err \<longrightarrow>
            fst (produce_handler env r cs) = http_Error ''Error producing message'' 500) \<and>
         (produce_fault env = None \<longrightarrow>
            fst (produce_handler env r cs) = \<lparr>status = 200, body = TextBody ''ok''\<rparr>))) \<and>
   (\<forall>event err. producer_Marshal (stamped env event) = Inl err \<longrightarrow>
      publish env event cs = (http_Error ''Error serializing event'' 500, cs)) \<and>
   (\<forall>d. produce_handler (env\<lparr>report := d\<rparr>) r cs = produce_handler env r cs)"
proof -
  have a: "post_method r \<noteq> ''POST'' \<longrightarrow> produce_handler env r cs = (http_Error ''POST only'' 405, cs)"
    by (simp add: produce_handler_def)
  have b: "\<forall>err. Unmarshal (post_body r) zero_event = Inl err \<longrightarrow>
         produce_handler env r cs = (http_Error ''Invalid JSON'' 400, cs)"
    if "post_method r = ''POST''"
    using that by (simp add: produce_handler_def)
  have c: "\<not> event_document (post_body r) \<and> post_body r \<noteq> Some JNull \<longrightarrow>
         produce_handler env r cs = (http_Error ''Invalid JSON'' 400, cs)"
    if "post_method r = ''POST''"
    using that
    by (auto simp: produce_handler_def event_document_def Unmarshal_def split: option.splits json.splits)
  have d: "(\<exists>data. producer_Marshal (stamped env decoded) = Inr data \<and>
            snd (produce_handler env r cs)
              = cs @ [(\<lparr>Topic = ''coordinates'', Key = UserID decoded, Value = Some data\<rparr>,
                       produce_fault env)]) \<and>
         (\<forall>err. produce_fault env = Some err \<longrightarrow>
            fst (produce_handler env r cs) = http_Error ''Error producing message'' 500) \<and>
         (produce_fault env = None \<longrightarrow>
            fst (produce_handler env r cs) = \<lparr>status = 200, body = TextBody ''ok''\<rparr>)"
    if p: "post_method r = ''POST''" and u: "Unmarshal (post_body r) zero_event = Inr decoded" for decoded
  proof -
    from Unmarshal_finite [OF u]
    have "producer_Marshal (stamped env decoded) = Inr (encoded (stamped env decoded))"
      by (intro producer_Marshal_finite) (simp_all add: stamped_coordinates)
    moreover have "produce_handler env r cs = publish env decoded cs"
      using p u by (simp add: produce_handler_def)
    ultimately show ?thesis
      using publish_cases [of env decoded cs] by simp
  qed
  have e: "\<forall>event err. producer_Marshal (stamped env event) = Inl err \<longrightarrow>
      publish env event cs = (http_Error ''Error serializing event'' 500, cs)"
    using publish_cases by blast
  have f: "\<forall>d. produce_handler (env\<lparr>report := d\<rparr>) r cs = produce_handler env r cs"
    by (simp add: produce_handler_def publish_report split: sum.splits)
  from a b c d e f show ?thesis by blast
qed

theorem produce_handler_responses_witness:
  "post_method (sample_post\<lparr>post_method := ''GET''\<rparr>) \<noteq> ''POST'' \<and>
   produce_handler sample_ingress (sample_post\<lparr>post_method := ''GET''\<rparr>) []
     = (http_Error ''POST only'' 405, []) \<and>
   post_method sample_post = ''POST'' \<and>
   Unmarshal (post_body (sample_post\<lparr>post_body := None\<rparr>)) zero_event = Inl SyntaxError \<and>
   produce_handler sample_ingress (sample_post\<lparr>post_body := None\<rparr>) []
     = (http_Error ''Invalid JSON'' 400, []) \<and>
   \<not> event_document (Some (JArray [])) \<and>
   produce_handler sample_ingress (sample_post\<lparr>post_body := Some (JArray [])\<rparr>) []
     = (http_Error ''Invalid JSON'' 400, []) \<and>
   \<not> post_trailing sample_post \<and>
   produce_fault sample_ingress = None \<and>
   produce_handler sample_ingress sample_post []
     = (\<lparr>status = 200, body = TextBody ''ok''\<rparr>,
        [(\<lparr>Topic = ''coordinates'', Key = ''u1'',
           Value = Some (JObject
             [(''user_id'', JString ''u1''), (''session_id'', JString []),
              (''lat'', JNumber (Finite 10)), (''lon'', JNumber (Finite 20)),
              (''timestamp'', JString ''2024-01-01T00:00:00Z'')])\<rparr>, None)]) \<and>
   produce_handler (sample_ingress\<lparr>produce_fault := Some ProduceError\<rparr>) sample_post []
     = (http_Error ''Error producing message'' 500,
        [(\<lparr>Topic = ''coordinates'', Key = ''u1'',
           Value = Some (JObject
             [(''user_id'', JString ''u1''), (''session_id'', JString []),
              (''lat'', JNumber (Finite 10)), (''lon'', JNumber (Finite 20)),
              (''timestamp'', JString ''2024-01-01T00:00:00Z'')])\<rparr>, Some ProduceError)]) \<and>
   producer_Marshal (stamped sample_ingress (sample_event\<lparr>CoordLat := NaN\<rparr>))
     = Inl UnsupportedValueError \<and>
   publish sample_ingress (sample_event\<lparr>CoordLat := NaN\<rparr>) []
     = (http_Error ''Error serializing event'' 500, [])"
proof -
  let ?get = "sample_post\<lparr>post_method := ''GET''\<rparr>"
  let ?bad = "sample_post\<lparr>post_body := None\<rparr>"
  let ?arr = "sample_post\<lparr>post_body := Some (JArray [])\<rparr>"
  let ?down = "sample_ingress\<lparr>produce_fault := Some ProduceError\<rparr>"
  let ?nan = "sample_event\<lparr>CoordLat := NaN\<rparr>"
  let ?e = "\<lparr>UserID = ''u1'', SessionID = [], CoordLat = Finite 10, CoordLon = Finite 20, Timestamp = []\<rparr>"
  let ?data = "JObject
             [(''user_id'', JString ''u1''), (''session_id'', JString []),
              (''lat'', JNumber (Finite 10)), (''lon'', JNumber (Finite 20)),
              (''timestamp'', JString ''2024-01-01T00:00:00Z'')]"
  have g: "post_method ?get \<noteq> ''POST''" by (simp add: sample_post_def)
  have p: "post_method sample_post = ''POST''" "post_method ?bad = ''POST''" "post_method ?arr = ''POST''"
    by (simp_all add: sample_post_def)
  have nt: "\<not> post_trailing sample_post" by (simp add: sample_post_def)
  have b: "Unmarshal (post_body ?bad) zero_event = Inl SyntaxError" by (simp add: Unmarshal_def)
  have ar: "\<not> event_document (post_body ?arr) \<and> post_body ?arr \<noteq> Some JNull"
    by (simp add: event_document_def)
  have u: "Unmarshal (post_body sample_post) zero_event = Inr ?e" by code_simp
  have m: "producer_Marshal (stamped sample_ingress ?e) = Inr ?data"
    "producer_Marshal (stamped ?down ?e) = Inr ?data" by code_simp+
  have n: "producer_Marshal (stamped sample_ingress ?nan) = Inl UnsupportedValueError"
    by (simp add: producer_Marshal_def marshal_float_def stamped_def sample_event_def)
  have f: "produce_fault sample_ingress = None" "produce_fault ?down = Some ProduceError"
    by (simp_all add: sample_ingress_def)
  note t1 = produce_handler_responses [of ?get sample_ingress "[]"]
  note t2 = produce_handler_responses [of ?bad sample_ingress "[]"]
  note t3 = produce_handler_responses [of sample_post sample_ingress "[]"]
  note t4 = produce_handler_responses [of sample_post ?down "[]"]
  note t5 = produce_handler_responses [of ?arr sample_ingress "[]"]
  from t1 g have r1: "produce_handler sample_ingress ?get [] = (http_Error ''POST only'' 405, [])"
    by blast
  from t2 p(2) b have r2: "produce_handler sample_ingress ?bad [] = (http_Error ''Invalid JSON'' 400, [])"
    by blast
  from t5 p(3) ar have r5: "produce_handler sample_ingress ?arr [] = (http_Error ''Invalid JSON'' 400, [])"
    by blast
  from t3 n have r6: "publish sample_ingress ?nan [] = (http_Error ''Error serializing event'' 500, [])"
    by blast
  from t3 p(1) u nt
  have r3a: "\<exists>data. producer_Marshal (stamped sample_ingress ?e) = Inr data \<and>
            snd (produce_handler sample_ingress sample_post [])
              = [] @ [(\<lparr>Topic = ''coordinates'', Key = UserID ?e, Value = Some data\<rparr>,
                       produce_fault sample_ingress)]"
    by blast
  from t3 p(1) u nt f(1)
  have r3b: "fst (produce_handler sample_ingress sample_post []) = \<lparr>status = 200, body = TextBody ''ok''\<rparr>"
    by blast
  from t4 p(1) u nt
  have r4a: "\<exists>data. producer_Marshal (stamped ?down ?e) = Inr data \<and>
            snd (produce_handler ?down sample_post [])
              = [] @ [(\<lparr>Topic = ''coordinates'', Key = UserID ?e, Value = Some data\<rparr>,
                       produce_fault ?down)]"
    by blast
  from t4 p(1) u nt f(2)
  have r4b: "fst (produce_handler ?down sample_post []) = http_Error ''Error producing message'' 500"
    by blast
  from r3a r3b m(1) f(1) have r3: "produce_handler sample_ingress sample_post []
     = (\<lparr>status = 200, body = TextBody ''ok''\<rparr>, [(\<lparr>Topic = ''coordinates'', Key = ''u1'', Value = Some ?data\<rparr>, None)])"
    by (auto simp: prod_eq_iff)
  from r4a r4b m(2) f(2) have r4: "produce_handler ?down sample_post []
     = (http_Error ''Error producing message'' 500,
        [(\<lparr>Topic = ''coordinates'', Key = ''u1'', Value = Some ?data\<rparr>, Some ProduceError)])"
    by (auto simp: prod_eq_iff)
  from ar have ar': "\<not> event_document (Some (JArray []))" by simp
  from g r1 p(1) b r2 ar' r5 nt f(1) r3 r4 n r6 show ?thesis by simp
qed

text \<open>
  C3 as stated fails in two places. The 200 is not tied to a confirmed delivery: the
  handler answers 200 \<^verbatim>\<open>ok\<close> when the delivery of the message has failed, and when
  \<^verbatim>\<open>Flush\<close> has timed out with the message still outstanding. And a body that is no JSON
  for an event is not always answered with 400: the body \<^verbatim>\<open>null\<close> is decoded as the event
  with empty fields, which is published and answered with 200.
\<close>

theorem produce_handler_ok_unconfirmed:
  "post_method sample_post = ''POST'' \<and>
   report sample_ingress = DeliveryFailed \<and>
   fst (produce_handler sample_ingress sample_post []) = \<lparr>status = 200, body = TextBody ''ok''\<rparr> \<and>
   Flush (report (sample_ingress\<lparr>report := Unconfirmed\<rparr>)) = 1 \<and>
   fst (produce_handler (sample_ingress\<lparr>report := Unconfirmed\<rparr>) sample_post [])
     = \<lparr>status = 200, body = TextBody ''ok''\<rparr> \<and>
   whole_body \<lparr>post_method = ''POST'', post_body = Some JNull, post_trailing = False\<rparr> = Some JNull \<and>
   \<not> event_document (Some JNull) \<and>
   produce_handler (sample_ingress\<lparr>report := Delivered\<rparr>)
       \<lparr>post_method = ''POST'', post_body = Some JNull, post_trailing = False\<rparr> []
     = (\<lparr>status = 200, body = TextBody ''ok''\<rparr>,
        [(\<lparr>Topic = ''coordinates'', Key = [],
           Value = Some (JObject
             [(''user_id'', JString []), (''session_id'', JString []),
              (''lat'', JNumber (Finite 0)), (''lon'', JNumber (Finite 0)),
              (''timestamp'', JString ''2024-01-01T00:00:00Z'')])\<rparr>, None)])"
  by code_simp

section \<open>The consume loop\<close>

text \<open>
  C5. For a message that the consume loop polls: when it does not deserialise, the error
  is logged and the table is unchanged; when it does, one insert is made, which on success
  appends exactly one row and on failure is logged and leaves the table unchanged, with no
  second attempt; in each case \<^verbatim>\<open>running\<close> stays true and the loop goes on with the
  following iterations.
\<close>

theorem consume_iteration_message:
  assumes "\<not> signal it" and "poll it = Some (Message v)"
  shows "(\<forall>err. Unmarshal v zero_event = Inl err \<longrightarrow>
            consume_iteration it s = (True, s\<lparr>sink_log := sink_log s @ [LogUnmarshalError]\<rparr>)) \<and>
         (\<forall>event. Unmarshal v zero_event = Inr event \<longrightarrow>
            (\<forall>db'. stmt_Exec (exec_fault it) (sink_db s) event = Inr db' \<longrightarrow>
               consume_iteration it s
                 = (True, \<lparr>sink_db = db', sink_log = sink_log s @ [LogStored event]\<rparr>) \<and>
               coordinates db' = coordinates (sink_db s) @ [row_of_event (Suc (seq (sink_db s))) event]) \<and>
            (\<forall>err. stmt_Exec (exec_fault it) (sink_db s) event = Inl err \<longrightarrow>
               consume_iteration it s = (True, s\<lparr>sink_log := sink_log s @ [LogInsertError]\<rparr>))) \<and>
         sink_db (s\<lparr>sink_log := l\<rparr>) = sink_db s \<and>
         fst (consume_iteration it s) \<and>
         consume_loop (it # its) s = consume_loop its (snd (consume_iteration it s))"
proof -
  have run: "fst (consume_iteration it s)"
    using assms by (simp add: consume_iteration_def split: sum.splits)
  then have "consume_loop (it # its) s = consume_loop its (snd (consume_iteration it s))"
    by (simp add: case_prod_beta)
  moreover have "\<forall>event db'. stmt_Exec (exec_fault it) (sink_db s) event = Inr db' \<longrightarrow>
      coordinates db' = coordinates (sink_db s) @ [row_of_event (Suc (seq (sink_db s))) event]"
    by (auto simp: stmt_Exec_def split: option.splits if_splits)
  ultimately show ?thesis
    using assms run by (simp add: consume_iteration_def)
qed


theorem consume_iteration_message_witness:
  "\<not> signal \<lparr>signal = False, poll = Some (Message None), exec_fault = None\<rparr> \<and>
   Unmarshal None zero_event = Inl SyntaxError \<and>
   consume_iteration \<lparr>signal = False, poll = Some (Message None), exec_fault = None\<rparr> sample_sink
     = (True, sample_sink\<lparr>sink_log := sink_log sample_sink @ [LogUnmarshalError]\<rparr>) \<and>
   Unmarshal (Some (encoded sample_event)) zero_event = Inr sample_event \<and>
   stmt_Exec (Some DatabaseError) (sink_db sample_sink) sample_event = Inl DatabaseError \<and>
   consume_iteration
     \<lparr>signal = False, poll = Some (Message (Some (encoded sample_event))), exec_fault = Some DatabaseError\<rparr>
     sample_sink
     = (True, sample_sink\<lparr>sink_log := sink_log sample_sink @ [LogInsertError]\<rparr>) \<and>
   consume_loop
     [\<lparr>signal = False, poll = Some (Message None), exec_fault = None\<rparr>,
      \<lparr>signal = False, poll = Some (Message (Some (encoded sample_event))), exec_fault = Some DatabaseError\<rparr>,
      \<lparr>signal = False, poll = Some (Message (Some (encoded sample_event))), exec_fault = None\<rparr>]
     sample_sink
     = \<lparr>sink_db = \<lparr>coordinates = coordinates sample_db @ [row_of_event 4 sample_event], seq = 4\<rparr>,
        sink_log = [LogUnmarshalError, LogInsertError, LogStored sample_event]\<rparr>"
proof -
  let ?bad = "\<lparr>signal = False, poll = Some (Message None), exec_fault = None\<rparr>"
  let ?fail = "\<lparr>signal = False, poll = Some (Message (Some (encoded sample_event))),
                exec_fault = Some DatabaseError\<rparr>"
  let ?ok = "\<lparr>signal = False, poll = Some (Message (Some (encoded sample_event))), exec_fault = None\<rparr>"
  have w: "well_formed sample_event" by code_simp
  have u1: "Unmarshal None zero_event = Inl SyntaxError" by (simp add: Unmarshal_def)
  have u2: "Unmarshal (Some (encoded sample_event)) zero_event = Inr sample_event"
    using w by (rule Unmarshal_encoded)
  have x: "stmt_Exec (Some DatabaseError) (sink_db sample_sink) sample_event = Inl DatabaseError"
    by (simp add: stmt_Exec_def)
  have y: "stmt_Exec None (sink_db sample_sink) sample_event
      = Inr \<lparr>coordinates = coordinates sample_db @ [row_of_event 4 sample_event], seq = 4\<rparr>"
    by (simp add: stmt_Exec_def sample_sink_def sample_db_def sample_event_def)
  note t1 = consume_iteration_message [of ?bad None sample_sink "[]" "[?fail, ?ok]"]
  note t2 = consume_iteration_message [of ?fail "Some (encoded sample_event)"
      "sample_sink\<lparr>sink_log := sink_log sample_sink @ [LogUnmarshalError]\<rparr>" "[]" "[?ok]"]
  note t3 = consume_iteration_message [of ?ok "Some (encoded sample_event)"
      "sample_sink\<lparr>sink_log := sink_log sample_sink @ [LogUnmarshalError, LogInsertError]\<rparr>" "[]" "[]"]
  note t4 = consume_iteration_message [of ?fail "Some (encoded sample_event)" sample_sink "[]" "[]"]
  from t1 u1 have r1: "consume_iteration ?bad sample_sink
      = (True, sample_sink\<lparr>sink_log := sink_log sample_sink @ [LogUnmarshalError]\<rparr>)"
    and l1: "consume_loop [?bad, ?fail, ?ok] sample_sink
      = consume_loop [?fail, ?ok] (snd (consume_iteration ?bad sample_sink))"
    by simp_all
  from t2 u2 x have r2: "consume_iteration ?fail (sample_sink\<lparr>sink_log := sink_log sample_sink @ [LogUnmarshalError]\<rparr>)
      = (True, sample_sink\<lparr>sink_log := sink_log sample_sink @ [LogUnmarshalError, LogInsertError]\<rparr>)"
    and l2: "consume_loop [?fail, ?ok] (sample_sink\<lparr>sink_log := sink_log sample_sink @ [LogUnmarshalError]\<rparr>)
      = consume_loop [?ok] (snd (consume_iteration ?fail
           (sample_sink\<lparr>sink_log := sink_log sample_sink @ [LogUnmarshalError]\<rparr>)))"
    by simp_all
  from t3 u2 y have r3: "consume_iteration ?ok
        (sample_sink\<lparr>sink_log := sink_log sample_sink @ [LogUnmarshalError, LogInsertError]\<rparr>)
      = (True, \<lparr>sink_db = \<lparr>coordinates = coordinates sample_db @ [row_of_event 4 sample_event], seq = 4\<rparr>,
                 sink_log = [LogUnmarshalError, LogInsertError, LogStored sample_event]\<rparr>)"
    by (simp add: sample_sink_def)
  from t4 u2 x have r4: "consume_iteration ?fail sample_sink
      = (True, sample_sink\<lparr>sink_log := sink_log sample_sink @ [LogInsertError]\<rparr>)"
    by simp
  have "consume_loop [?bad, ?fail, ?ok] sample_sink
      = \<lparr>sink_db = \<lparr>coordinates = coordinates sample_db @ [row_of_event 4 sample_event], seq = 4\<rparr>,
         sink_log = [LogUnmarshalError, LogInsertError, LogStored sample_event]\<rparr>"
    unfolding l1 r1 snd_conv l2 r2 by (simp add: r3)
  with u1 r1 u2 x r4 show ?thesis by simp
qed

section \<open>The tick loop\<close>

lemma LocationEvent_Marshal_finite:
  "is_finite (LocLat e) \<Longrightarrow> is_finite (LocLon e) \<Longrightarrow> \<exists>j. LocationEvent_Marshal e = Inr j"
  by (simp add: LocationEvent_Marshal_def marshal_float_def)

lemma user_step_coordinate:
  assumes "in_degrees (Base user)" and "valid_draw d"
  shows "coordinate_calls (user_step user d g) = coordinate_calls g @ [coordinate_message user d]"
proof -
  from assms have u: "unit_interval (r_lat d)" "unit_interval (r_lon d)"
    by (simp_all add: valid_draw_def)
  let ?pos = "generateCoordinate (Base user) (r_lat d) (r_lon d)"
  from generateCoordinate_axes [OF assms(1) u] have f: "is_finite (Lat ?pos)" "is_finite (Lon ?pos)"
    by (auto dest: near_base_finite)
  then have m: "producer_Marshal (coordEvent user d) = Inr (encoded (coordEvent user d))"
    by (intro producer_Marshal_finite) (simp_all add: coordEvent_def Let_def)
  from f obtain j where l: "LocationEvent_Marshal (locEvent user d) = Inr j"
    using LocationEvent_Marshal_finite [of "locEvent user d"] by (auto simp: locEvent_def Let_def)
  show ?thesis
    by (simp add: user_step_def m l Let_def coordinate_calls_def Produce_def coordinate_message_def)
qed

lemma range_users_coordinates:
  assumes "\<forall>u \<in> set us. in_degrees (Base u)" and "\<forall>k < length us. valid_draw (ds (i + k))"
  shows "coordinate_calls (range_users us i ds g)
           = coordinate_calls g @ map2 coordinate_message us (map ds [i..<i + length us])"
  using assms
proof (induction us arbitrary: i g)
  case Nil
  then show ?case by simp
next
  case (Cons u us)
  from Cons.prems(2) have d0: "valid_draw (ds i)" by force
  have rest: "\<forall>k < length us. valid_draw (ds (Suc i + k))"
  proof (intro allI impI)
    fix k assume "k < length us"
    then have "Suc k < length (u # us)" by simp
    with Cons.prems(2) have "valid_draw (ds (i + Suc k))" by blast
    then show "valid_draw (ds (Suc i + k))" by simp
  qed
  from Cons.prems(1) have deg: "in_degrees (Base u)" "\<forall>u \<in> set us. in_degrees (Base u)" by simp_all
  have "[i..<i + Suc (length us)] = i # [Suc i..<i + Suc (length us)]"
    by (rule upt_conv_Cons) simp
  then have "[i..<i + length (u # us)] = i # [Suc i..<Suc i + length us]"
    by simp
  then show ?case
    using Cons.IH [OF deg(2) rest] user_step_coordinate [OF deg(1) d0] by simp
qed

lemma roster_pass_coordinates:
  assumes "\<forall>i < length users. valid_draw (ds i)"
  shows "coordinate_calls (range_users users 0 ds g) = coordinate_calls g @ roster_pass ds"
  using range_users_coordinates [of users ds 0 g] users_in_degrees assms
  by (simp add: roster_pass_def)

lemma roster_pass_keys: "map Key (roster_pass ds) = map ID users"
  by (simp add: roster_pass_def coordinate_message_def map2_map_map [symmetric] zip_map2 map_nth
      users_def upt_rec [of 0] upt_rec [of 1] upt_rec [of 2])

lemma tick_loop_stop:
  assumes "\<forall>t \<in> set before. \<not> done_ready t \<and> (\<forall>i < length users. valid_draw (draws t i))"
    and "done_ready t"
  shows "\<exists>g'. tick_loop (before @ t # after) g = (True, g') \<and>
              tick_loop (before @ [t]) g = (True, g') \<and>
              coordinate_calls g' = coordinate_calls g @ concat (map (\<lambda>t. roster_pass (draws t)) before)"
  using assms
proof (induction before arbitrary: g)
  case Nil
  then show ?case by (simp add: coordinate_calls_def)
next
  case (Cons b before)
  from Cons.prems(1) have b: "\<not> done_ready b" "\<forall>i < length users. valid_draw (draws b i)"
    and rest: "\<forall>t \<in> set before. \<not> done_ready t \<and> (\<forall>i < length users. valid_draw (draws t i))"
    by simp_all
  from Cons.IH [OF rest Cons.prems(2), of "range_users users 0 (draws b) g"]
  obtain g' where g': "tick_loop (before @ t # after) (range_users users 0 (draws b) g) = (True, g')"
    "tick_loop (before @ [t]) (range_users users 0 (draws b) g) = (True, g')"
    "coordinate_calls g' = coordinate_calls (range_users users 0 (draws b) g)
        @ concat (map (\<lambda>t. roster_pass (draws t)) before)"
    by blast
  from g' b(1) roster_pass_coordinates [OF b(2), of g] show ?case by simp
qed

lemma roster_ids: "map ID users = [''Ashish'', ''Saranya'', ''Cookie'']" "length users = 3"
  by (simp_all add: users_def)

text \<open>
  C6. In a pass of the tick loop, whatever the outcomes of \<^verbatim>\<open>Produce\<close> and of the draw for
  the location event, the coordinate messages handed to \<^verbatim>\<open>Produce\<close> are exactly one per
  roster user, keyed by the user ids in roster order; a tick that finds no stop runs this
  pass and goes on.
\<close>

theorem roster_pass_one_event_per_user:
  assumes "\<forall>i < length users. valid_draw (ds i)"
  shows "coordinate_calls (range_users users 0 ds g) = coordinate_calls g @ roster_pass ds \<and>
         map Key (roster_pass ds) = map ID users \<and>
         length (roster_pass ds) = length users \<and>
         (\<not> done_ready t \<and> draws t = ds \<longrightarrow>
            tick_loop (t # ts) g = tick_loop ts (range_users users 0 ds g))"
  using roster_pass_coordinates [OF assms] roster_pass_keys [of ds]
  by (auto simp: roster_pass_def)

theorem roster_pass_one_event_per_user_witness:
  "valid_draw sample_draw \<and>
   coordinate_calls (range_users users 0 (\<lambda>i. sample_draw) sample_gen)
     = coordinate_calls sample_gen @ roster_pass (\<lambda>i. sample_draw) \<and>
   map Key (roster_pass (\<lambda>i. sample_draw)) = [''Ashish'', ''Saranya'', ''Cookie''] \<and>
   length (roster_pass (\<lambda>i. sample_draw)) = 3"
proof -
  have v: "valid_draw sample_draw" by code_simp
  then have h: "\<forall>i < length users. valid_draw ((\<lambda>i. sample_draw) i)" by simp
  note t = roster_pass_one_event_per_user [OF h, of sample_gen]
  from t have a: "coordinate_calls (range_users users 0 (\<lambda>i. sample_draw) sample_gen)
     = coordinate_calls sample_gen @ roster_pass (\<lambda>i. sample_draw)" by (rule conjunct1)
  have b: "map Key (roster_pass (\<lambda>i. sample_draw)) = map ID users"
    by (rule t [THEN conjunct2, THEN conjunct1])
  have c: "length (roster_pass (\<lambda>i. sample_draw)) = length users"
    by (rule t [THEN conjunct2, THEN conjunct2, THEN conjunct1])
  from v a b c show ?thesis unfolding roster_ids by (intro conjI)
qed

text \<open>
  C7. When a tick finds the stop on \<^verbatim>\<open>done\<close>, the loop returns; the coordinate messages it
  has handed over are the whole roster passes of the ticks before, and what would have
  followed the stop plays no part in the result.
\<close>

theorem generateEvents_stop:
  assumes "\<forall>t \<in> set before. \<not> done_ready t \<and> (\<forall>i < length users. valid_draw (draws t i))"
    and "done_ready t"
  shows "\<exists>g'. generateEvents (before @ t # after) g = (True, g') \<and>
              generateEvents (before @ [t]) g = (True, g') \<and>
              coordinate_calls g' = coordinate_calls g @ concat (map (\<lambda>t. roster_pass (draws t)) before) \<and>
              length (coordinate_calls g') = length (coordinate_calls g) + length before * length users"
proof -
  let ?g = "g\<lparr>gen_log := gen_log g @ [LogStart (length users)]\<rparr>"
  from tick_loop_stop [OF assms, of after ?g]
  obtain g' where g': "tick_loop (before @ t # after) ?g = (True, g')"
    "tick_loop (before @ [t]) ?g = (True, g')"
    "coordinate_calls g' = coordinate_calls ?g @ concat (map (\<lambda>t. roster_pass (draws t)) before)"
    by blast
  have c: "coordinate_calls ?g = coordinate_calls g" by (simp add: coordinate_calls_def)
  have "length (concat (map (\<lambda>t. roster_pass (draws t)) before)) = length before * length users"
    by (induction before) (simp_all add: roster_pass_def)
  with g' c show ?thesis by (simp add: generateEvents_def)
qed


theorem generateEvents_stop_witness:
  "valid_draw sample_draw \<and>
   (\<exists>g'. generateEvents
            [\<lparr>done_ready = False, draws = \<lambda>i. sample_draw\<rparr>,
             \<lparr>done_ready = True, draws = \<lambda>i. sample_draw\<rparr>,
             \<lparr>done_ready = False, draws = \<lambda>i. sample_draw\<rparr>] sample_gen = (True, g') \<and>
          generateEvents
            [\<lparr>done_ready = False, draws = \<lambda>i. sample_draw\<rparr>,
             \<lparr>done_ready = True, draws = \<lambda>i. sample_draw\<rparr>] sample_gen = (True, g') \<and>
          map Key (coordinate_calls g') = [''Ashish'', ''Saranya'', ''Cookie''] \<and>
          length (coordinate_calls g') = 3)"
proof -
  let ?go = "\<lparr>done_ready = False, draws = \<lambda>i. sample_draw\<rparr>"
  let ?stop = "\<lparr>done_ready = True, draws = \<lambda>i. sample_draw\<rparr>"
  have v: "valid_draw sample_draw" by code_simp
  then have h: "\<forall>t \<in> set [?go]. \<not> done_ready t \<and> (\<forall>i < length users. valid_draw (draws t i))"
    by simp
  have d: "done_ready ?stop" by simp
  from generateEvents_stop [OF h d, of "[?go]" sample_gen]
  obtain g' where g1: "generateEvents ([?go] @ ?stop # [?go]) sample_gen = (True, g')"
    and g2: "generateEvents ([?go] @ [?stop]) sample_gen = (True, g')"
    and g3: "coordinate_calls g' = coordinate_calls sample_gen @ concat (map (\<lambda>t. roster_pass (draws t)) [?go])"
    and g4: "length (coordinate_calls g') = length (coordinate_calls sample_gen) + length [?go] * length users"
    by (elim exE conjE)
  have e: "coordinate_calls sample_gen = []" by (simp add: coordinate_calls_def sample_gen_def)
  from g3 e have "coordinate_calls g' = roster_pass (\<lambda>i. sample_draw)" by simp
  then have "map Key (coordinate_calls g') = map ID users"
    by (simp only: roster_pass_keys)
  then have k: "map Key (coordinate_calls g') = [''Ashish'', ''Saranya'', ''Cookie'']"
    by (simp only: roster_ids)
  from g4 e have l: "length (coordinate_calls g') = 3" by (simp add: roster_ids)
  from g1 have g1': "generateEvents [?go, ?stop, ?go] sample_gen = (True, g')" by simp
  from g2 have g2': "generateEvents [?go, ?stop] sample_gen = (True, g')" by simp
  show ?thesis
    apply (rule conjI [OF v])
    apply (rule exI [of _ g'])
    using g1' g2' k l apply (intro conjI)
       apply assumption+
    done
qed

end
